theory Spec2Isabelle
  imports Complex_Main
begin

section \<open>Entities of polariton.h\<close>

text \<open>
  The C++ \<^verbatim>\<open>double\<close> is read as a real number and \<^verbatim>\<open>arma::cx_double\<close> as a
  complex number: arithmetic is exact, copies are exact. \<^verbatim>\<open>size_t\<close> counters are natural
  numbers (they count the elements of vectors held in memory and never wrap).

  Entities are reached through raw pointers (\<^verbatim>\<open>PolaritonMode*\<close>, \<^verbatim>\<open>PhononMode*\<close>), so
  they live in a store: a pointer is an address, and the store maps every address to the
  object it points to. Pointers handed to the classes are taken to be valid. A reservoir
  is owned by its oscillator through a \<^verbatim>\<open>unique_ptr\<close>, so it is a field of the oscillator:
  \<open>None\<close> is the empty \<^verbatim>\<open>unique_ptr\<close>.
\<close>

type_synonym addr = nat

record NonResonantDriving =
  polariton :: addr
  coupling_constant :: real
  time_factor :: real
  power_nr :: real
  alpha :: real
  value_nr :: real

record PolaritonMode =
  neighboring_polaritons :: "addr list"
  neighboring_phonons :: "addr list"
  constant_couplings :: "complex list"
  phonon_couplings :: "complex list"
  detunings_from_resonance :: "real list"
  signs :: "real list"
  n_neighbors :: nat
  r_driving_amp :: complex
  r_driving_detuning :: real
  reservoir_owned :: "NonResonantDriving option"
  reservoir_coupling :: real
  dissipative_gamma :: real
  self_interaction :: real
  value_pm :: complex

record PhononMode =
  pairs :: "(addr \<times> addr) list"
  detunings :: "real list"
  couplings :: "real list"
  n_pairings :: nat
  frequency :: real
  dissipation :: real
  position :: real
  velocity :: real

record heap =
  pol :: "addr \<Rightarrow> PolaritonMode"
  phn :: "addr \<Rightarrow> PhononMode"

subsection \<open>Constructors and mutators\<close>

definition NonResonantDriving_new ::
  "addr \<Rightarrow> real \<Rightarrow> real \<Rightarrow> real \<Rightarrow> real \<Rightarrow> real \<Rightarrow> NonResonantDriving" where
  "NonResonantDriving_new polariton_mode coupling tau P alpha' n0 =
     \<lparr>polariton = polariton_mode, coupling_constant = coupling, time_factor = tau,
      power_nr = P, alpha = alpha', value_nr = n0\<rparr>"

definition PolaritonMode_new :: "real \<Rightarrow> real \<Rightarrow> PolaritonMode" where
  "PolaritonMode_new gamma U =
     \<lparr>neighboring_polaritons = [], neighboring_phonons = [], constant_couplings = [],
      phonon_couplings = [], detunings_from_resonance = [], signs = [], n_neighbors = 0,
      r_driving_amp = 0, r_driving_detuning = 0, reservoir_owned = None,
      reservoir_coupling = 0, dissipative_gamma = gamma, self_interaction = U,
      value_pm = 0\<rparr>"

definition PhononMode_new :: "real \<Rightarrow> real \<Rightarrow> PhononMode" where
  "PhononMode_new Omega Gamma =
     \<lparr>pairs = [], detunings = [], couplings = [], n_pairings = 0, frequency = Omega,
      dissipation = Gamma, position = 0, velocity = 0\<rparr>"

text \<open>\<^verbatim>\<open>PolaritonMode::connect\<close>: one entry is pushed on each of the six parallel arrays.\<close>

definition connect ::
  "addr \<Rightarrow> addr \<Rightarrow> real \<Rightarrow> real \<Rightarrow> real \<Rightarrow> bool \<Rightarrow> PolaritonMode \<Rightarrow> PolaritonMode" where
  "connect q ph J g delta above' p =
     p\<lparr>neighboring_polaritons := neighboring_polaritons p @ [q],
       neighboring_phonons := neighboring_phonons p @ [ph],
       constant_couplings := constant_couplings p @ [complex_of_real J],
       phonon_couplings := phonon_couplings p @ [complex_of_real g],
       detunings_from_resonance := detunings_from_resonance p @ [delta],
       signs := signs p @ [if above' then 1 else - 1],
       n_neighbors := n_neighbors p + 1\<rparr>"

text \<open>\<^verbatim>\<open>PolaritonMode::add_reservoir\<close>, called on the oscillator at address \<open>this\<close>.\<close>

definition add_reservoir ::
  "addr \<Rightarrow> real \<Rightarrow> real \<Rightarrow> real \<Rightarrow> real \<Rightarrow> real \<Rightarrow> PolaritonMode \<Rightarrow> PolaritonMode" where
  "add_reservoir this coupling tau pump_power alpha' initial_n p =
     p\<lparr>reservoir_owned := Some (NonResonantDriving_new this coupling tau pump_power alpha' initial_n),
       reservoir_coupling := coupling\<rparr>"

definition set_driving :: "complex \<Rightarrow> real \<Rightarrow> PolaritonMode \<Rightarrow> PolaritonMode" where
  "set_driving amp detuning p = p\<lparr>r_driving_amp := amp, r_driving_detuning := detuning\<rparr>"

definition add_pairing :: "addr \<times> addr \<Rightarrow> real \<Rightarrow> real \<Rightarrow> PhononMode \<Rightarrow> PhononMode" where
  "add_pairing polariton_pair delta coupling ph =
     ph\<lparr>pairs := pairs ph @ [polariton_pair],
        detunings := detunings ph @ [delta],
        couplings := couplings ph @ [coupling],
        n_pairings := n_pairings ph + 1\<rparr>"

subsection \<open>Derivatives\<close>

text \<open>
  \<^verbatim>\<open>std::polar(1.0, phi)\<close> is \<open>cis phi\<close>. The loops run over \<open>i < n_neighbors\<close>
  (\<open>i < n_pairings\<close>) and index the parallel arrays; the arrays are private and only grow
  together with the counter, so these reads are in range.
\<close>

definition PolaritonMode_derivative :: "heap \<Rightarrow> addr \<Rightarrow> real \<Rightarrow> complex" where
  "PolaritonMode_derivative h a t =
     (let p = pol h a;
          res = (case reservoir_owned p of
                   Some r \<Rightarrow> complex_of_real (value_nr r)
                 | None \<Rightarrow> 0);
          drv0 = value_pm p * (- \<i> * complex_of_real (dissipative_gamma p)
                     + complex_of_real (self_interaction p) * value_pm p * cnj (value_pm p)
                     + \<i> * complex_of_real (reservoir_coupling p) * res)
                 + r_driving_amp p * cis (r_driving_detuning p * t);
          drv = fold (\<lambda>i drv.
                   let phase = signs p ! i
                         * (frequency (phn h (neighboring_phonons p ! i))
                            + detunings_from_resonance p ! i) * t;
                       phonon_term = phonon_couplings p ! i
                         * complex_of_real (position (phn h (neighboring_phonons p ! i)))
                   in drv + (constant_couplings p ! i + phonon_term) * cis phase
                        * value_pm (pol h (neighboring_polaritons p ! i)))
                 [0..<n_neighbors p] drv0
      in - \<i> * drv)"

definition PhononMode_second_derivative :: "heap \<Rightarrow> addr \<Rightarrow> real \<Rightarrow> real" where
  "PhononMode_second_derivative h a t =
     (let ph = phn h a;
          drv = - frequency ph * frequency ph * position ph - dissipation ph * velocity ph;
          backaction = fold (\<lambda>i backaction.
                   let phase_factor = cis (- (frequency ph + detunings ph ! i) * t)
                   in backaction + complex_of_real (couplings ph ! i)
                        * value_pm (pol h (fst (pairs ph ! i)))
                        * cnj (value_pm (pol h (snd (pairs ph ! i))))
                        * phase_factor)
                 [0..<n_pairings ph] 0
      in drv + - 2 * frequency ph * dissipation ph * Re backaction)"

definition NonResonantDriving_derivative :: "heap \<Rightarrow> NonResonantDriving \<Rightarrow> real \<Rightarrow> real" where
  "NonResonantDriving_derivative h r t =
     (let intensity = Re (value_pm (pol h (polariton r)) * cnj (value_pm (pol h (polariton r))))
      in time_factor r * (power_nr r - value_nr r * (1 + alpha r * alpha r * intensity)))"

section \<open>The Cavity of polariton.h\<close>

subsection \<open>Exceptions and vectors\<close>

text \<open>
  Every exception the code can throw is a value. \<open>IndexOutOfBounds\<close> is the exception of
  Armadillo's checked element access \<^verbatim>\<open>x(i)\<close>; \<open>ConversionError\<close> stands for the exceptions
  of \<^verbatim>\<open>std::stod\<close> and \<^verbatim>\<open>std::stoul\<close>. A call that throws returns \<open>Inl\<close> of the exception;
  nothing in the repository resumes work on a cavity after catching one, so the state
  left behind by a call that throws is not kept.
\<close>

datatype error =
    DomainError string
  | RangeError string
  | RuntimeError string
  | IndexOutOfBounds
  | ConversionError

fun ebind :: "error + 'a \<Rightarrow> ('a \<Rightarrow> error + 'b) \<Rightarrow> error + 'b" where
  "ebind (Inl e) f = Inl e"
| "ebind (Inr x) f = f x"

text \<open>An \<^verbatim>\<open>arma::vec\<close> is the list of its elements; \<open>elem\<close> reads \<^verbatim>\<open>x(i)\<close> and \<open>set_elem\<close>
  writes it.\<close>

definition elem :: "real list \<Rightarrow> nat \<Rightarrow> error + real" where
  "elem x i = (if i < length x then Inr (x ! i) else Inl IndexOutOfBounds)"

definition set_elem :: "real list \<Rightarrow> nat \<Rightarrow> real \<Rightarrow> error + real list" where
  "set_elem x i v = (if i < length x then Inr (x[i := v]) else Inl IndexOutOfBounds)"

text \<open>
  \<^verbatim>\<open>set_size(n)\<close> keeps a vector that already has \<open>n\<close> elements and otherwise leaves \<open>n\<close>
  uninitialised elements: \<open>u\<close> is what the fresh memory happens to hold.
\<close>

definition set_size :: "(nat \<Rightarrow> real) \<Rightarrow> nat \<Rightarrow> real list \<Rightarrow> real list" where
  "set_size u n x = (if length x = n then x else map u [0..<n])"

subsection \<open>The class\<close>

text \<open>
  \<open>'s\<close> is the state of the controlled Dormand-Prince stepper of Boost.Odeint
  (\<^verbatim>\<open>dopri5_stepper\<close>). The fixed-step stepper \<^verbatim>\<open>rk4_stepper\<close> only holds scratch buffers
  and is not a field of the model.
\<close>

record 's Cavity =
  polaritons :: "addr list"
  phonons :: "addr list"
  current_state :: "real list"
  current_time :: real
  dopri5_stepper :: 's
  abs_stepper_tol :: real
  rel_stepper_tol :: real
  used_time_step :: real
  system_dimension :: nat
  evaluating_rhs :: bool

text \<open>The setters of the entities, applied to the object behind a pointer.\<close>

definition set_value :: "addr \<Rightarrow> complex \<Rightarrow> heap \<Rightarrow> heap" where
  "set_value p val h = h\<lparr>pol := (pol h)(p := (pol h p)\<lparr>value_pm := val\<rparr>)\<rparr>"

definition set_position :: "addr \<Rightarrow> real \<Rightarrow> heap \<Rightarrow> heap" where
  "set_position ph x h = h\<lparr>phn := (phn h)(ph := (phn h ph)\<lparr>position := x\<rparr>)\<rparr>"

definition set_velocity :: "addr \<Rightarrow> real \<Rightarrow> heap \<Rightarrow> heap" where
  "set_velocity ph v h = h\<lparr>phn := (phn h)(ph := (phn h ph)\<lparr>velocity := v\<rparr>)\<rparr>"

text \<open>\<^verbatim>\<open>p->get_reservoir()->set_value(n)\<close>, called only where \<^verbatim>\<open>get_reservoir()\<close> is not null.\<close>

definition set_value_reservoir :: "addr \<Rightarrow> real \<Rightarrow> heap \<Rightarrow> heap" where
  "set_value_reservoir p n h =
     h\<lparr>pol := (pol h)(p := (pol h p)\<lparr>reservoir_owned :=
        map_option (\<lambda>r. r\<lparr>value_nr := n\<rparr>) (reservoir_owned (pol h p))\<rparr>)\<rparr>"

text \<open>\<^verbatim>\<open>check()\<close> of both entity classes.\<close>

definition PolaritonMode_check :: "PolaritonMode \<Rightarrow> error + PolaritonMode" where
  "PolaritonMode_check p =
     (let dimensions = [length (neighboring_polaritons p), length (neighboring_phonons p),
                        length (constant_couplings p), length (phonon_couplings p),
                        length (detunings_from_resonance p), length (signs p)]
      in if \<not> list_all (\<lambda>x. x = hd dimensions) dimensions
         then Inl (DomainError ''All system arrays must have the same dimensions'')
         else Inr (p\<lparr>n_neighbors := dimensions ! 0\<rparr>))"

definition PhononMode_check :: "PhononMode \<Rightarrow> error + PhononMode" where
  "PhononMode_check ph =
     (let dimensions = [length (pairs ph), length (detunings ph), length (couplings ph)]
      in if \<not> list_all (\<lambda>x. x = hd dimensions) dimensions
         then Inl (DomainError ''All system arrays must have the same dimensions'')
         else Inr (ph\<lparr>n_pairings := dimensions ! 0\<rparr>))"

fun check_polaritons :: "addr list \<Rightarrow> heap \<Rightarrow> error + heap" where
  "check_polaritons [] h = Inr h"
| "check_polaritons (p # ps) h =
     ebind (PolaritonMode_check (pol h p)) (\<lambda>p'.
       check_polaritons ps (h\<lparr>pol := (pol h)(p := p')\<rparr>))"

fun check_phonons :: "addr list \<Rightarrow> heap \<Rightarrow> error + heap" where
  "check_phonons [] h = Inr h"
| "check_phonons (ph # phs) h =
     ebind (PhononMode_check (phn h ph)) (\<lambda>ph'.
       check_phonons phs (h\<lparr>phn := (phn h)(ph := ph')\<rparr>))"

subsection \<open>pack_state and unpack_state\<close>

text \<open>Each of the three loops of \<^verbatim>\<open>pack_state\<close> threads the vector and the running index.\<close>

fun pack_polaritons :: "heap \<Rightarrow> addr list \<Rightarrow> real list \<Rightarrow> nat \<Rightarrow> error + (real list \<times> nat)" where
  "pack_polaritons h [] st idx = Inr (st, idx)"
| "pack_polaritons h (p # ps) st idx =
     (let v = value_pm (pol h p) in
      ebind (set_elem st idx (Re v)) (\<lambda>st.
      ebind (set_elem st (idx + 1) (Im v)) (\<lambda>st.
      pack_polaritons h ps st (idx + 2))))"

fun pack_phonons :: "heap \<Rightarrow> addr list \<Rightarrow> real list \<Rightarrow> nat \<Rightarrow> error + (real list \<times> nat)" where
  "pack_phonons h [] st idx = Inr (st, idx)"
| "pack_phonons h (ph # phs) st idx =
     ebind (set_elem st idx (position (phn h ph))) (\<lambda>st.
     ebind (set_elem st (idx + 1) (velocity (phn h ph))) (\<lambda>st.
     pack_phonons h phs st (idx + 2)))"

fun pack_reservoirs :: "heap \<Rightarrow> addr list \<Rightarrow> real list \<Rightarrow> nat \<Rightarrow> error + (real list \<times> nat)" where
  "pack_reservoirs h [] st idx = Inr (st, idx)"
| "pack_reservoirs h (p # ps) st idx =
     (case reservoir_owned (pol h p) of
        Some r \<Rightarrow> ebind (set_elem st idx (value_nr r)) (\<lambda>st. pack_reservoirs h ps st (idx + 1))
      | None \<Rightarrow> pack_reservoirs h ps st idx)"

definition pack_state :: "heap \<Rightarrow> 's Cavity \<Rightarrow> error + 's Cavity" where
  "pack_state h c =
     ebind (pack_polaritons h (polaritons c) (current_state c) 0) (\<lambda>(st, idx).
     ebind (pack_phonons h (phonons c) st idx) (\<lambda>(st, idx).
     ebind (pack_reservoirs h (polaritons c) st idx) (\<lambda>(st, idx).
     Inr (c\<lparr>current_state := st\<rparr>))))"

fun unpack_polaritons :: "real list \<Rightarrow> addr list \<Rightarrow> nat \<Rightarrow> heap \<Rightarrow> error + (heap \<times> nat)" where
  "unpack_polaritons x [] idx h = Inr (h, idx)"
| "unpack_polaritons x (p # ps) idx h =
     ebind (elem x idx) (\<lambda>re.
     ebind (elem x (idx + 1)) (\<lambda>im.
     unpack_polaritons x ps (idx + 2) (set_value p (Complex re im) h)))"

fun unpack_phonons :: "real list \<Rightarrow> addr list \<Rightarrow> nat \<Rightarrow> heap \<Rightarrow> error + (heap \<times> nat)" where
  "unpack_phonons x [] idx h = Inr (h, idx)"
| "unpack_phonons x (ph # phs) idx h =
     ebind (elem x idx) (\<lambda>pos.
     ebind (elem x (idx + 1)) (\<lambda>vel.
     unpack_phonons x phs (idx + 2) (set_velocity ph vel (set_position ph pos h))))"

fun unpack_reservoirs :: "real list \<Rightarrow> addr list \<Rightarrow> nat \<Rightarrow> heap \<Rightarrow> error + (heap \<times> nat)" where
  "unpack_reservoirs x [] idx h = Inr (h, idx)"
| "unpack_reservoirs x (p # ps) idx h =
     (case reservoir_owned (pol h p) of
        Some r \<Rightarrow> ebind (elem x idx) (\<lambda>n. unpack_reservoirs x ps (idx + 1) (set_value_reservoir p n h))
      | None \<Rightarrow> unpack_reservoirs x ps idx h)"

definition unpack_state :: "'s Cavity \<Rightarrow> real list \<Rightarrow> heap \<Rightarrow> error + heap" where
  "unpack_state c x h =
     ebind (unpack_polaritons x (polaritons c) 0 h) (\<lambda>(h, idx).
     ebind (unpack_phonons x (phonons c) idx h) (\<lambda>(h, idx).
     ebind (unpack_reservoirs x (polaritons c) idx h) (\<lambda>(h, idx).
     Inr h)))"

subsection \<open>The constructor\<close>

text \<open>
  The loop that counts the reservoirs, then the constructor. \<open>make_controlled\<close> is
  Boost.Odeint's factory of the controlled stepper, a parameter here. The state vector is
  empty before \<^verbatim>\<open>set_size\<close>.
\<close>

fun count_reservoirs :: "heap \<Rightarrow> addr list \<Rightarrow> nat \<Rightarrow> nat" where
  "count_reservoirs h [] N = N"
| "count_reservoirs h (p # ps) N =
     (if reservoir_owned (pol h p) \<noteq> None then count_reservoirs h ps (N + 1)
      else count_reservoirs h ps N)"

definition Cavity_new ::
  "(nat \<Rightarrow> real) \<Rightarrow> (real \<Rightarrow> real \<Rightarrow> 's) \<Rightarrow> addr list \<Rightarrow> addr list \<Rightarrow> real \<Rightarrow> heap
     \<Rightarrow> error + ('s Cavity \<times> heap)" where
  "Cavity_new u make_controlled polariton_modes phonon_modes t0 h =
     (let c = \<lparr>polaritons = polariton_modes, phonons = phonon_modes, current_state = [],
               current_time = t0, dopri5_stepper = make_controlled (1 / 10 ^ 6) (1 / 10 ^ 6),
               abs_stepper_tol = 1 / 10 ^ 6, rel_stepper_tol = 1 / 10 ^ 6,
               used_time_step = 1 / 10 ^ 3, system_dimension = 0, evaluating_rhs = False\<rparr>
      in ebind (check_polaritons (polaritons c) h) (\<lambda>h.
         ebind (check_phonons (phonons c) h) (\<lambda>h.
         let N = 2 * length (polaritons c) + 2 * length (phonons c);
             N = count_reservoirs h (polaritons c) N;
             c = c\<lparr>system_dimension := N\<rparr>;
             c = c\<lparr>current_state := set_size u (system_dimension c) (current_state c)\<rparr>
         in ebind (pack_state h c) (\<lambda>c. Inr (c, h)))))"

text \<open>The default constructor.\<close>

definition Cavity_default :: "(real \<Rightarrow> real \<Rightarrow> 's) \<Rightarrow> 's Cavity" where
  "Cavity_default make_controlled =
     \<lparr>polaritons = [], phonons = [], current_state = [], current_time = 0,
      dopri5_stepper = make_controlled (1 / 10 ^ 6) (1 / 10 ^ 6),
      abs_stepper_tol = 1 / 10 ^ 6, rel_stepper_tol = 1 / 10 ^ 6,
      used_time_step = 1 / 10 ^ 3, system_dimension = 0, evaluating_rhs = False\<rparr>"

definition get_state :: "'s Cavity \<Rightarrow> real list" where
  "get_state c = current_state c"

definition get_time :: "'s Cavity \<Rightarrow> real" where
  "get_time c = current_time c"

definition get_time_step :: "'s Cavity \<Rightarrow> real" where
  "get_time_step c = used_time_step c"

definition get_polariton :: "'s Cavity \<Rightarrow> nat \<Rightarrow> error + addr" where
  "get_polariton c index =
     (if index \<ge> length (polaritons c) then Inl (RangeError ''Polariton index out of bounds'')
      else Inr (polaritons c ! index))"

definition get_phonon :: "'s Cavity \<Rightarrow> nat \<Rightarrow> error + addr" where
  "get_phonon c index =
     (if index \<ge> length (phonons c) then Inl (RangeError ''Phonon index out of bounds'')
      else Inr (phonons c ! index))"

subsection \<open>The vector field: operator()\<close>

text \<open>
  \<^verbatim>\<open>operator()(x, dxdt, t)\<close>: \<open>dxdt\<close> is resized, \<open>x\<close> is unpacked into the entities, and
  the three loops write the derivatives at the running index.
\<close>

fun derive_polaritons ::
  "heap \<Rightarrow> real \<Rightarrow> addr list \<Rightarrow> real list \<Rightarrow> nat \<Rightarrow> error + (real list \<times> nat)" where
  "derive_polaritons h t [] dxdt idx = Inr (dxdt, idx)"
| "derive_polaritons h t (p # ps) dxdt idx =
     (let d = PolaritonMode_derivative h p t in
      ebind (set_elem dxdt idx (Re d)) (\<lambda>dxdt.
      ebind (set_elem dxdt (idx + 1) (Im d)) (\<lambda>dxdt.
      derive_polaritons h t ps dxdt (idx + 2))))"

fun derive_phonons ::
  "heap \<Rightarrow> real \<Rightarrow> addr list \<Rightarrow> real list \<Rightarrow> nat \<Rightarrow> error + (real list \<times> nat)" where
  "derive_phonons h t [] dxdt idx = Inr (dxdt, idx)"
| "derive_phonons h t (ph # phs) dxdt idx =
     ebind (set_elem dxdt idx (velocity (phn h ph))) (\<lambda>dxdt.
     ebind (set_elem dxdt (idx + 1) (PhononMode_second_derivative h ph t)) (\<lambda>dxdt.
     derive_phonons h t phs dxdt (idx + 2)))"

fun derive_reservoirs ::
  "heap \<Rightarrow> real \<Rightarrow> addr list \<Rightarrow> real list \<Rightarrow> nat \<Rightarrow> error + (real list \<times> nat)" where
  "derive_reservoirs h t [] dxdt idx = Inr (dxdt, idx)"
| "derive_reservoirs h t (p # ps) dxdt idx =
     (case reservoir_owned (pol h p) of
        Some r \<Rightarrow> ebind (set_elem dxdt idx (NonResonantDriving_derivative h r t)) (\<lambda>dxdt.
                   derive_reservoirs h t ps dxdt (idx + 1))
      | None \<Rightarrow> derive_reservoirs h t ps dxdt idx)"

definition operator_call ::
  "(nat \<Rightarrow> real) \<Rightarrow> real list \<Rightarrow> real list \<Rightarrow> real \<Rightarrow> 's Cavity \<times> heap
     \<Rightarrow> error + (('s Cavity \<times> heap) \<times> real list)" where
  "operator_call u x dxdt t = (\<lambda>(c, h).
     let dxdt = set_size u (system_dimension c) dxdt;
         c = c\<lparr>evaluating_rhs := True\<rparr>
     in ebind (unpack_state c x h) (\<lambda>h.
        ebind (derive_polaritons h t (polaritons c) dxdt 0) (\<lambda>(dxdt, idx).
        ebind (derive_phonons h t (phonons c) dxdt idx) (\<lambda>(dxdt, idx).
        ebind (derive_reservoirs h t (polaritons c) dxdt idx) (\<lambda>(dxdt, idx).
        Inr ((c\<lparr>evaluating_rhs := False\<rparr>, h), dxdt))))))"

subsection \<open>The steppers\<close>

text \<open>
  \<^verbatim>\<open>rk4_stepper.do_step(system, x, t, dt)\<close> is Boost.Odeint's \<^verbatim>\<open>runge_kutta4\<close>, library
  code modelled from its documentation: the classical four-stage Runge-Kutta step. It
  calls the system four times, updates \<open>x\<close> in place, and takes \<open>t\<close> and \<open>dt\<close> by value:
  it returns no time. The system is passed by reference (\<^verbatim>\<open>std::ref(*this)\<close>), so each
  call acts on the state \<open>s\<close> of the system. The stepper's derivative buffers are resized
  to the size of \<open>x\<close> before use; \<open>axpy x a k\<close> is \<open>x + a * k\<close> on vectors of one size (the
  state and the derivatives of one system).
\<close>

definition axpy :: "real list \<Rightarrow> real \<Rightarrow> real list \<Rightarrow> real list" where
  "axpy x a k = map2 (\<lambda>xi ki. xi + a * ki) x k"

definition runge_kutta4_do_step ::
  "(nat \<Rightarrow> real) \<Rightarrow> (real list \<Rightarrow> real list \<Rightarrow> real \<Rightarrow> 'sys \<Rightarrow> error + ('sys \<times> real list))
     \<Rightarrow> real list \<Rightarrow> real \<Rightarrow> real \<Rightarrow> 'sys \<Rightarrow> error + ('sys \<times> real list)" where
  "runge_kutta4_do_step u system x t dt s =
     (let buf = set_size u (length x) [] in
      ebind (system x buf t s) (\<lambda>(s, k1).
      ebind (system (axpy x (dt / 2) k1) buf (t + dt / 2) s) (\<lambda>(s, k2).
      ebind (system (axpy x (dt / 2) k2) buf (t + dt / 2) s) (\<lambda>(s, k3).
      ebind (system (axpy x dt k3) buf (t + dt) s) (\<lambda>(s, k4).
      Inr (s, axpy (axpy (axpy (axpy x (dt / 6) k1) (dt / 3) k2) (dt / 3) k3) (dt / 6) k4))))))"

text \<open>
  \<^verbatim>\<open>Cavity::do_step(dt)\<close>. The stepper gets \<^verbatim>\<open>current_time\<close> by value; the assignments of
  the body are to \<^verbatim>\<open>current_state\<close> (through the stepper's reference), to the entities
  (\<^verbatim>\<open>unpack_state\<close>) and to \<^verbatim>\<open>used_time_step\<close>.
\<close>

definition do_step ::
  "(nat \<Rightarrow> real) \<Rightarrow> real \<Rightarrow> 's Cavity \<times> heap \<Rightarrow> error + ('s Cavity \<times> heap)" where
  "do_step u dt = (\<lambda>(c, h).
     ebind (runge_kutta4_do_step u (operator_call u) (current_state c) (current_time c) dt (c, h))
       (\<lambda>((c, h), x).
     let c = c\<lparr>current_state := x\<rparr> in
     ebind (unpack_state c (current_state c) h) (\<lambda>h.
     Inr (c\<lparr>used_time_step := dt\<rparr>, h))))"

text \<open>
  \<^verbatim>\<open>Cavity::adaptive_step()\<close>. \<^verbatim>\<open>dopri5_stepper.try_step(system, x, t, dt)\<close> is Boost.Odeint's
  controlled stepper, a parameter here: it takes \<open>x\<close>, \<open>t\<close> and \<open>dt\<close> by reference and
  returns them with its own new state.
\<close>

type_synonym ('s, 'sys) try_step =
  "(real list \<Rightarrow> real list \<Rightarrow> real \<Rightarrow> 'sys \<Rightarrow> error + ('sys \<times> real list))
     \<Rightarrow> 's \<Rightarrow> real list \<Rightarrow> real \<Rightarrow> real \<Rightarrow> 'sys \<Rightarrow> error + ('sys \<times> 's \<times> real list \<times> real \<times> real)"

definition adaptive_step ::
  "('s, 's Cavity \<times> heap) try_step \<Rightarrow> (nat \<Rightarrow> real) \<Rightarrow> 's Cavity \<times> heap
     \<Rightarrow> error + ('s Cavity \<times> heap)" where
  "adaptive_step try_step u = (\<lambda>(c, h).
     ebind (try_step (operator_call u) (dopri5_stepper c) (current_state c) (current_time c)
              (used_time_step c) (c, h))
       (\<lambda>((c, h), s, x, t, dt).
     let c = c\<lparr>dopri5_stepper := s, current_state := x, current_time := t,
               used_time_step := dt\<rparr> in
     ebind (unpack_state c (current_state c) h) (\<lambda>h.
     Inr (c, h))))"

section \<open>The configuration loader of cavity_config.h\<close>

subsection \<open>The parser\<close>

text \<open>
  What the loader takes from the C++ standard library is a parameter: \<^verbatim>\<open>std::stod\<close> and
  \<^verbatim>\<open>std::stoul\<close> (\<open>None\<close> when they throw), the seeding of the generator, a draw from
  \<^verbatim>\<open>std::uniform_real_distribution\<close> and from \<^verbatim>\<open>std::normal_distribution\<close>, the addresses
  \<^verbatim>\<open>new\<close> returns, and \<^verbatim>\<open>std::sqrt\<close>. \<open>'g\<close> is the state of the random generator.

  \<^verbatim>\<open>std::sqrt\<close> of a double \<open>a \<ge> 0\<close> is the double nearest to the root, which is the root
  itself only when that is a double: \<open>std_sqrt\<close> is that function, and nothing is assumed of
  it. For \<open>a < 0\<close> the library returns a NaN, which is no real number: what is stated of
  \<open>std_sqrt\<close> is stated for \<open>a \<ge> 0\<close> only.
\<close>

record 'g stdlib =
  stod :: "string \<Rightarrow> real option"
  stoul :: "string \<Rightarrow> nat option"
  seed_rng :: "nat \<Rightarrow> 'g"
  uniform_real_distribution :: "real \<Rightarrow> real \<Rightarrow> 'g \<Rightarrow> real \<times> 'g"
  normal_distribution :: "real \<Rightarrow> real \<Rightarrow> 'g \<Rightarrow> real \<times> 'g"
  new_polariton :: "heap \<Rightarrow> addr"
  new_phonon :: "heap \<Rightarrow> addr"
  std_sqrt :: "real \<Rightarrow> real"

text \<open>
  A \<^verbatim>\<open>ConfigParser\<close> after \<^verbatim>\<open>load\<close>: the generator and the sections read from the file.
  The outer \<^verbatim>\<open>unordered_map\<close> is a list of its entries in the order its iteration visits
  them (the C++ standard leaves that order open); the inner maps are only looked up.
  Reading the file itself is outside the model.
\<close>

record 'g ConfigParser =
  rng :: 'g
  sections :: "(string \<times> (string \<rightharpoonup> string)) list"

text \<open>
  \<^verbatim>\<open>trim\<close> drops the characters of \<^verbatim>\<open>" \t\r\n"\<close> at both ends. \<open>find_char\<close> is
  \<^verbatim>\<open>std::string::find\<close> of a character (\<open>None\<close> for \<^verbatim>\<open>npos\<close>), \<open>substr\<close> is
  \<^verbatim>\<open>substr(pos, n)\<close> for \<open>pos\<close> within the string, and \<open>size_sub\<close> is the subtraction of
  \<^verbatim>\<open>size_t\<close>, which wraps.
\<close>

definition whitespace :: "char set" where
  "whitespace = {CHR '' '', CHR 0x09, CHR 0x0D, CHR 0x0A}"

definition trim :: "string \<Rightarrow> string" where
  "trim s = rev (dropWhile (\<lambda>c. c \<in> whitespace) (rev (dropWhile (\<lambda>c. c \<in> whitespace) s)))"

fun find_char :: "char \<Rightarrow> string \<Rightarrow> nat option" where
  "find_char c [] = None"
| "find_char c (x # xs) = (if x = c then Some 0 else map_option Suc (find_char c xs))"

definition substr :: "string \<Rightarrow> nat \<Rightarrow> nat \<Rightarrow> string" where
  "substr s pos n = take n (drop pos s)"

definition size_sub :: "nat \<Rightarrow> nat \<Rightarrow> nat" where
  "size_sub a b = nat ((int a - int b) mod 2 ^ 64)"

text \<open>
  \<^verbatim>\<open>parse_expression\<close>. The branches for \<^verbatim>\<open>uniform(a, b)\<close> and \<^verbatim>\<open>normal(mean, std)\<close> have the
  same body but for the distribution; \<open>parse_call\<close> is that body, and \<open>None\<close> is the case
  where a delimiter is missing and the code falls through.
\<close>

definition parse_call ::
  "'g stdlib \<Rightarrow> (real \<Rightarrow> real \<Rightarrow> 'g \<Rightarrow> real \<times> 'g) \<Rightarrow> string \<Rightarrow> 'g ConfigParser
     \<Rightarrow> (error + real \<times> 'g ConfigParser) option" where
  "parse_call L draw trimmed P =
     (case (find_char CHR ''('' trimmed, find_char CHR '','' trimmed, find_char CHR '')'' trimmed) of
        (Some start, Some comma, Some end') \<Rightarrow>
          Some (case stod L (substr trimmed (start + 1) (size_sub (size_sub comma start) 1)) of
                  None \<Rightarrow> Inl ConversionError
                | Some a \<Rightarrow>
                   (case stod L (substr trimmed (comma + 1) (size_sub (size_sub end' comma) 1)) of
                      None \<Rightarrow> Inl ConversionError
                    | Some b \<Rightarrow> (case draw a b (rng P) of (v, g) \<Rightarrow> Inr (v, P\<lparr>rng := g\<rparr>))))
      | _ \<Rightarrow> None)"

definition parse_expression ::
  "'g stdlib \<Rightarrow> string \<Rightarrow> 'g ConfigParser \<Rightarrow> error + real \<times> 'g ConfigParser" where
  "parse_expression L expr P =
     (let trimmed = trim expr in
      case stod L trimmed of
        Some v \<Rightarrow> Inr (v, P)
      | None \<Rightarrow>
         (case (if substr trimmed 0 7 = ''uniform'' \<or> substr trimmed 0 7 = ''Uniform''
                then parse_call L (uniform_real_distribution L) trimmed P else None) of
            Some res \<Rightarrow> res
          | None \<Rightarrow>
             (case (if substr trimmed 0 6 = ''normal'' \<or> substr trimmed 0 6 = ''Normal''
                    then parse_call L (normal_distribution L) trimmed P else None) of
                Some res \<Rightarrow> res
              | None \<Rightarrow> Inl (RuntimeError (''Cannot parse expression: '' @ expr)))))"


definition has_section :: "'g ConfigParser \<Rightarrow> string \<Rightarrow> bool" where
  "has_section P section \<longleftrightarrow> map_of (sections P) section \<noteq> None"

definition get_string :: "'g ConfigParser \<Rightarrow> string \<Rightarrow> string \<Rightarrow> string \<Rightarrow> string" where
  "get_string P section key default_val =
     (case map_of (sections P) section of
        None \<Rightarrow> default_val
      | Some kv \<Rightarrow> (case kv key of None \<Rightarrow> default_val | Some v \<Rightarrow> v))"

definition get_double ::
  "'g stdlib \<Rightarrow> string \<Rightarrow> string \<Rightarrow> real \<Rightarrow> 'g ConfigParser
     \<Rightarrow> error + real \<times> 'g ConfigParser" where
  "get_double L section key default_val P =
     (let val = get_string P section key [] in
      if val = [] then Inr (default_val, P) else parse_expression L val P)"

definition get_bool :: "'g ConfigParser \<Rightarrow> string \<Rightarrow> string \<Rightarrow> bool \<Rightarrow> bool" where
  "get_bool P section key default_val =
     (let val = get_string P section key [] in
      if val = [] then default_val
      else (val = ''true'' \<or> val = ''True'' \<or> val = ''1'' \<or> val = ''yes''))"

definition get_sections_by_type :: "'g ConfigParser \<Rightarrow> string \<Rightarrow> string list" where
  "get_sections_by_type P type =
     map fst (filter (\<lambda>pair. substr (fst pair) 0 (length type) = type) (sections P))"

definition extract_name :: "string \<Rightarrow> string" where
  "extract_name section =
     (case find_char CHR '' '' section of
        Some space \<Rightarrow> trim (drop (space + 1) section)
      | None \<Rightarrow> section)"

subsection \<open>load_from_ini\<close>

text \<open>
  \<^verbatim>\<open>load_from_ini\<close> works on the parser, the two name maps of the \<^verbatim>\<open>CavityConfig\<close>, the
  cavity it is given and the store. The ids kept in the maps are positions in the
  cavity's vectors, which \<^verbatim>\<open>load_from_ini\<close> reads with the unchecked \<^verbatim>\<open>operator[]\<close>.
\<close>

record CavityConfig =
  polariton_map :: "string \<rightharpoonup> nat"
  phonon_map :: "string \<rightharpoonup> nat"

record ('g, 's) loading =
  parser :: "'g ConfigParser"
  config :: CavityConfig
  cavity :: "'s Cavity"
  store :: heap

text \<open>The seeding at the start, then the body of the loop of each phase.\<close>

definition seed_parser :: "'g stdlib \<Rightarrow> 'g ConfigParser \<Rightarrow> error + 'g ConfigParser" where
  "seed_parser L P =
     (if has_section P ''global''
      then (let seed_str = get_string P ''global'' ''random_seed'' [] in
            if seed_str \<noteq> ''auto'' \<and> seed_str \<noteq> []
            then (case stoul L seed_str of
                    None \<Rightarrow> Inl ConversionError
                  | Some seed \<Rightarrow> Inr (P\<lparr>rng := seed_rng L seed\<rparr>))
            else Inr P)
      else Inr P)"

definition create_polariton ::
  "'g stdlib \<Rightarrow> string \<Rightarrow> ('g, 's) loading \<Rightarrow> error + ('g, 's) loading" where
  "create_polariton L section st =
     (let name = extract_name section in
      ebind (get_double L section ''gamma'' 1 (parser st)) (\<lambda>(gamma, P).
      ebind (get_double L section ''U'' 0 P) (\<lambda>(U, P).
      let id = length (polaritons (cavity st));
          a = new_polariton L (store st);
          h = (store st)\<lparr>pol := (pol (store st))(a := PolaritonMode_new gamma U)\<rparr>;
          c = (cavity st)\<lparr>polaritons := polaritons (cavity st) @ [a]\<rparr>;
          m = (config st)\<lparr>polariton_map := (polariton_map (config st))(name \<mapsto> id)\<rparr>
      in ebind (get_double L section ''initial_real'' 0 P) (\<lambda>(re, P).
         ebind (get_double L section ''initial_imag'' 0 P) (\<lambda>(im, P).
         Inr (st\<lparr>parser := P, config := m, cavity := c,
                 store := set_value (polaritons c ! id) (Complex re im) h\<rparr>))))))"

definition create_phonon ::
  "'g stdlib \<Rightarrow> string \<Rightarrow> ('g, 's) loading \<Rightarrow> error + ('g, 's) loading" where
  "create_phonon L section st =
     (let name = extract_name section in
      ebind (get_double L section ''omega'' 20 (parser st)) (\<lambda>(omega, P).
      ebind (get_double L section ''gamma'' (5 / 100) P) (\<lambda>(gamma, P).
      let id = length (phonons (cavity st));
          a = new_phonon L (store st);
          h = (store st)\<lparr>phn := (phn (store st))(a := PhononMode_new omega gamma)\<rparr>;
          c = (cavity st)\<lparr>phonons := phonons (cavity st) @ [a]\<rparr>;
          m = (config st)\<lparr>phonon_map := (phonon_map (config st))(name \<mapsto> id)\<rparr>
      in ebind (get_double L section ''initial_position'' 0 P) (\<lambda>(x, P).
         ebind (get_double L section ''initial_velocity'' 0 P) (\<lambda>(v, P).
         Inr (st\<lparr>parser := P, config := m, cavity := c,
                 store := set_velocity (phonons c ! id) v
                            (set_position (phonons c ! id) x h)\<rparr>))))))"

definition create_reservoir ::
  "'g stdlib \<Rightarrow> string \<Rightarrow> ('g, 's) loading \<Rightarrow> error + ('g, 's) loading" where
  "create_reservoir L section st =
     (let target = get_string (parser st) section ''target'' [] in
      case polariton_map (config st) target of
        None \<Rightarrow> Inl (RuntimeError (''Reservoir target not found: '' @ target))
      | Some pol_id \<Rightarrow>
          ebind (get_double L section ''coupling'' 1 (parser st)) (\<lambda>(coupling, P).
          ebind (get_double L section ''tau'' 1 P) (\<lambda>(tau, P).
          ebind (get_double L section ''power'' 0 P) (\<lambda>(power', P).
          ebind (get_double L section ''alpha'' 1 P) (\<lambda>(a, P).
          let alpha' = std_sqrt L a in
          ebind (get_double L section ''n0'' 0 P) (\<lambda>(initial_n, P).
          let this = polaritons (cavity st) ! pol_id in
          Inr (st\<lparr>parser := P,
                  store := (store st)\<lparr>pol := (pol (store st))
                    (this := add_reservoir this coupling tau power' alpha' initial_n
                               (pol (store st) this))\<rparr>\<rparr>)))))))"

definition create_coupling ::
  "'g stdlib \<Rightarrow> string \<Rightarrow> ('g, 's) loading \<Rightarrow> error + ('g, 's) loading" where
  "create_coupling L section st =
     (let from = get_string (parser st) section ''from'' [];
          to = get_string (parser st) section ''to'' [];
          phonon = get_string (parser st) section ''phonon'' []
      in case polariton_map (config st) from of
           None \<Rightarrow> Inl (RuntimeError (''Coupling 'from' not found: '' @ from))
         | Some from_id \<Rightarrow>
      (case polariton_map (config st) to of
           None \<Rightarrow> Inl (RuntimeError (''Coupling 'to' not found: '' @ to))
         | Some to_id \<Rightarrow>
      (case phonon_map (config st) phonon of
           None \<Rightarrow> Inl (RuntimeError (''Coupling phonon not found: '' @ phonon))
         | Some ph_id \<Rightarrow>
          ebind (get_double L section ''J'' 0 (parser st)) (\<lambda>(J, P).
          ebind (get_double L section ''g'' 1 P) (\<lambda>(g, P).
          ebind (get_double L section ''delta'' 0 P) (\<lambda>(delta, P).
          let above' = get_bool P section ''above'' True;
              this = polaritons (cavity st) ! from_id
          in Inr (st\<lparr>parser := P,
                     store := (store st)\<lparr>pol := (pol (store st))
                       (this := connect (polaritons (cavity st) ! to_id)
                                  (phonons (cavity st) ! ph_id) J g delta above'
                                  (pol (store st) this))\<rparr>\<rparr>)))))))"

definition create_pairing ::
  "'g stdlib \<Rightarrow> string \<Rightarrow> ('g, 's) loading \<Rightarrow> error + ('g, 's) loading" where
  "create_pairing L section st =
     (let phonon = get_string (parser st) section ''phonon'' [];
          sites_str = get_string (parser st) section ''sites'' []
      in case phonon_map (config st) phonon of
           None \<Rightarrow> Inl (RuntimeError (''Pairing phonon not found: '' @ phonon))
         | Some ph_id \<Rightarrow>
      (case find_char CHR '','' sites_str of
           None \<Rightarrow> Inl (RuntimeError ''Pairing sites must be comma-separated'')
         | Some comma \<Rightarrow>
          let site1 = dropWhile (\<lambda>c. c \<in> {CHR '' '', CHR 0x09}) (substr sites_str 0 comma);
              site2 = dropWhile (\<lambda>c. c \<in> {CHR '' '', CHR 0x09}) (drop (comma + 1) sites_str)
          in case polariton_map (config st) site1 of
               None \<Rightarrow> Inl (RuntimeError (''Pairing site not found: '' @ site1))
             | Some p1_id \<Rightarrow>
          (case polariton_map (config st) site2 of
               None \<Rightarrow> Inl (RuntimeError (''Pairing site not found: '' @ site2))
             | Some p2_id \<Rightarrow>
              ebind (get_double L section ''g'' 1 (parser st)) (\<lambda>(g, P).
              ebind (get_double L section ''delta'' 0 P) (\<lambda>(delta, P).
              let this = phonons (cavity st) ! ph_id
              in Inr (st\<lparr>parser := P,
                         store := (store st)\<lparr>phn := (phn (store st))
                           (this := add_pairing (polaritons (cavity st) ! p1_id,
                                                 polaritons (cavity st) ! p2_id) delta g
                                      (phn (store st) this))\<rparr>\<rparr>))))))"

text \<open>
  A range-based \<^verbatim>\<open>for\<close> over section names: the first exception ends the loop. The
  phases 1 to 3 create the entities, the phases 4 and 5 the links between them, and the
  last part initializes the cavity: it sets the time, computes the dimension, sizes the
  state vector and packs.
\<close>

fun for_each ::
  "(string \<Rightarrow> 'st \<Rightarrow> error + 'st) \<Rightarrow> string list \<Rightarrow> 'st \<Rightarrow> error + 'st" where
  "for_each body [] st = Inr st"
| "for_each body (section # rest) st = ebind (body section st) (for_each body rest)"

definition create_entities :: "'g stdlib \<Rightarrow> ('g, 's) loading \<Rightarrow> error + ('g, 's) loading" where
  "create_entities L st =
     ebind (seed_parser L (parser st)) (\<lambda>P.
     ebind (for_each (create_polariton L) (get_sections_by_type P ''polariton'')
              (st\<lparr>parser := P\<rparr>)) (\<lambda>st.
     ebind (for_each (create_phonon L) (get_sections_by_type (parser st) ''phonon'') st) (\<lambda>st.
     for_each (create_reservoir L) (get_sections_by_type (parser st) ''reservoir'') st)))"

definition create_links :: "'g stdlib \<Rightarrow> ('g, 's) loading \<Rightarrow> error + ('g, 's) loading" where
  "create_links L st =
     ebind (for_each (create_coupling L) (get_sections_by_type (parser st) ''coupling'') st) (\<lambda>st.
     for_each (create_pairing L) (get_sections_by_type (parser st) ''pairing'') st)"

definition initialize_cavity ::
  "'g stdlib \<Rightarrow> (nat \<Rightarrow> real) \<Rightarrow> (real \<Rightarrow> real \<Rightarrow> 's) \<Rightarrow> ('g, 's) loading
     \<Rightarrow> error + ('g, 's) loading" where
  "initialize_cavity L u make_controlled st =
     ebind (get_double L ''global'' ''time'' 0 (parser st)) (\<lambda>(t0, P).
     let c = (cavity st)\<lparr>current_time := t0\<rparr>;
         c = c\<lparr>dopri5_stepper := make_controlled (abs_stepper_tol c) (rel_stepper_tol c)\<rparr>
     in ebind (check_polaritons (polaritons c) (store st)) (\<lambda>h.
        ebind (check_phonons (phonons c) h) (\<lambda>h.
        let N = 2 * length (polaritons c) + 2 * length (phonons c);
            N = count_reservoirs h (polaritons c) N;
            c = c\<lparr>system_dimension := N\<rparr>;
            c = c\<lparr>current_state := set_size u (system_dimension c) (current_state c)\<rparr>
        in ebind (pack_state h c) (\<lambda>c.
           Inr (st\<lparr>parser := P, cavity := c, store := h\<rparr>)))))"

definition load_from_ini ::
  "'g stdlib \<Rightarrow> (nat \<Rightarrow> real) \<Rightarrow> (real \<Rightarrow> real \<Rightarrow> 's) \<Rightarrow> ('g, 's) loading
     \<Rightarrow> error + ('g, 's) loading" where
  "load_from_ini L u make_controlled st =
     ebind (create_entities L st) (\<lambda>st.
     ebind (create_links L st) (\<lambda>st.
     initialize_cavity L u make_controlled st))"

section \<open>Properties stated by the specification\<close>

subsection \<open>Predicates and sample configurations\<close>

text \<open>An oscillator whose links all have \<open>J = 0\<close> and \<open>g = 0\<close>; a mechanical mode whose
  pairings all have coupling \<open>0\<close>.\<close>

definition links_decoupled :: "PolaritonMode \<Rightarrow> bool" where
  "links_decoupled p =
     (\<forall>i < n_neighbors p. constant_couplings p ! i = 0 \<and> phonon_couplings p ! i = 0)"

definition pairings_decoupled :: "PhononMode \<Rightarrow> bool" where
  "pairings_decoupled ph = (\<forall>i < n_pairings ph. couplings ph ! i = 0)"

text \<open>
  The layout of the specification, written without indices: the \<open>(re, im)\<close> pairs of the
  oscillators in creation order, then the \<open>(position, velocity)\<close> pairs of the mechanical
  modes, then one value for each oscillator that owns a reservoir, in creation order.
\<close>

definition polariton_slots :: "heap \<Rightarrow> addr list \<Rightarrow> real list" where
  "polariton_slots h ps =
     concat (map (\<lambda>p. [Re (value_pm (pol h p)), Im (value_pm (pol h p))]) ps)"

definition phonon_slots :: "heap \<Rightarrow> addr list \<Rightarrow> real list" where
  "phonon_slots h phs = concat (map (\<lambda>ph. [position (phn h ph), velocity (phn h ph)]) phs)"

definition reservoir_owners :: "heap \<Rightarrow> addr list \<Rightarrow> addr list" where
  "reservoir_owners h ps = filter (\<lambda>p. reservoir_owned (pol h p) \<noteq> None) ps"

definition reservoir_slots :: "heap \<Rightarrow> addr list \<Rightarrow> real list" where
  "reservoir_slots h ps =
     map (\<lambda>p. value_nr (the (reservoir_owned (pol h p)))) (reservoir_owners h ps)"

definition flat_state :: "heap \<Rightarrow> 's Cavity \<Rightarrow> real list" where
  "flat_state h c =
     polariton_slots h (polaritons c) @ phonon_slots h (phonons c)
       @ reservoir_slots h (polaritons c)"

text \<open>The derivatives in the same layout.\<close>

definition polariton_derivs :: "heap \<Rightarrow> real \<Rightarrow> addr list \<Rightarrow> real list" where
  "polariton_derivs h t ps =
     concat (map (\<lambda>p. [Re (PolaritonMode_derivative h p t), Im (PolaritonMode_derivative h p t)]) ps)"

definition phonon_derivs :: "heap \<Rightarrow> real \<Rightarrow> addr list \<Rightarrow> real list" where
  "phonon_derivs h t phs =
     concat (map (\<lambda>ph. [velocity (phn h ph), PhononMode_second_derivative h ph t]) phs)"

definition reservoir_derivs :: "heap \<Rightarrow> real \<Rightarrow> addr list \<Rightarrow> real list" where
  "reservoir_derivs h t ps =
     map (\<lambda>p. NonResonantDriving_derivative h (the (reservoir_owned (pol h p))) t)
       (reservoir_owners h ps)"

definition vector_field :: "heap \<Rightarrow> real \<Rightarrow> 's Cavity \<Rightarrow> real list" where
  "vector_field h t c =
     polariton_derivs h t (polaritons c) @ phonon_derivs h t (phonons c)
       @ reservoir_derivs h t (polaritons c)"

text \<open>
  The dimension recorded at construction still counts the entities of the cavity: this
  holds after the constructor and as long as no reservoir is attached afterwards.
\<close>

definition layout_ok :: "'s Cavity \<Rightarrow> heap \<Rightarrow> bool" where
  "layout_ok c h \<longleftrightarrow>
     system_dimension c = 2 * length (polaritons c) + 2 * length (phonons c)
        + length (reservoir_owners h (polaritons c))"

text \<open>
  The assignments \<^verbatim>\<open>unpack_state\<close> makes, as a list of writes in the order of the loops:
  each sets one field of one entity to a value read from the vector.
\<close>

datatype wr =
    SetValue addr complex
  | SetPosition addr real
  | SetVelocity addr real
  | SetReservoir addr real

fun apply_wr :: "wr \<Rightarrow> heap \<Rightarrow> heap" where
  "apply_wr (SetValue p v) h = set_value p v h"
| "apply_wr (SetPosition ph x) h = set_position ph x h"
| "apply_wr (SetVelocity ph v) h = set_velocity ph v h"
| "apply_wr (SetReservoir p n) h = set_value_reservoir p n h"

fun polariton_writes :: "real list \<Rightarrow> addr list \<Rightarrow> wr list" where
  "polariton_writes (re # im # seg) (p # ps) = SetValue p (Complex re im) # polariton_writes seg ps"
| "polariton_writes seg ps = []"

fun phonon_writes :: "real list \<Rightarrow> addr list \<Rightarrow> wr list" where
  "phonon_writes (pos # vel # seg) (ph # phs) =
     SetPosition ph pos # SetVelocity ph vel # phonon_writes seg phs"
| "phonon_writes seg phs = []"

fun reservoir_writes :: "heap \<Rightarrow> real list \<Rightarrow> addr list \<Rightarrow> wr list" where
  "reservoir_writes h seg [] = []"
| "reservoir_writes h seg (p # ps) =
     (if reservoir_owned (pol h p) \<noteq> None
      then (case seg of
              [] \<Rightarrow> []
            | n # seg' \<Rightarrow> SetReservoir p n # reservoir_writes h seg' ps)
      else reservoir_writes h seg ps)"

definition state_writes :: "heap \<Rightarrow> real list \<Rightarrow> 's Cavity \<Rightarrow> wr list" where
  "state_writes h x c =
     polariton_writes (take (2 * length (polaritons c)) x) (polaritons c)
     @ phonon_writes (take (2 * length (phonons c)) (drop (2 * length (polaritons c)) x))
         (phonons c)
     @ reservoir_writes h (drop (2 * length (polaritons c) + 2 * length (phonons c)) x)
         (polaritons c)"

text \<open>A store of fresh entities, and three stores built from it with the classes' own
  operations: an oscillator with \<open>gamma = 1\<close>, \<open>U = 0\<close>, amplitude \<open>1\<close> and one link with
  \<open>J = g = 0\<close>; an undamped oscillator of amplitude \<open>1\<close> that owns a reservoir of coupling
  \<open>1\<close> and value \<open>1\<close>; a mechanical mode with \<open>Omega = 20\<close>, \<open>Gamma = 0.05\<close>, position \<open>1\<close> and
  one pairing of coupling \<open>0\<close>.\<close>

definition fresh_heap :: heap where
  "fresh_heap = \<lparr>pol = (\<lambda>a. PolaritonMode_new 0 0), phn = (\<lambda>a. PhononMode_new 0 0)\<rparr>"

definition decoupled_site_heap :: heap where
  "decoupled_site_heap =
     set_value 0 1 (fresh_heap\<lparr>pol := (pol fresh_heap)
        (0 := connect 1 0 0 0 0 True (PolaritonMode_new 1 0))\<rparr>)"

definition pumped_site_heap :: heap where
  "pumped_site_heap =
     set_value 0 1 (fresh_heap\<lparr>pol := (pol fresh_heap)
        (0 := add_reservoir 0 1 1 0 1 1 (PolaritonMode_new 0 0))\<rparr>)"

definition decoupled_mode_heap :: heap where
  "decoupled_mode_heap =
     set_position 0 1 (fresh_heap\<lparr>phn := (phn fresh_heap)
        (0 := add_pairing (0, 1) 0 0 (PhononMode_new 20 (5 / 100)))\<rparr>)"

text \<open>
  Two coupled sites and one mechanical mode: site \<open>0\<close> has amplitude \<open>1 + 2i\<close>, site \<open>1\<close>
  owns a reservoir of value \<open>3\<close>, the mode has position \<open>4\<close> and velocity \<open>5\<close>; and a cavity
  over them at time \<open>0\<close>. Fresh memory holds zeros (\<open>zero_memory\<close>) or ones (\<open>one_memory\<close>) and the controlled
  stepper has no state (\<open>unit_stepper\<close>) in the samples. \<open>halving_try_step\<close> is a sample controlled stepper that accepts
  the step without moving the state and halves the step size.
\<close>

definition two_site_heap :: heap where
  "two_site_heap =
     set_value 0 (Complex 1 2)
       (set_position 0 4 (set_velocity 0 5
         (fresh_heap\<lparr>
            pol := (pol fresh_heap)
              (0 := connect 1 0 0 1 0 True (PolaritonMode_new 1 0),
               1 := add_reservoir 1 1 1 6 2 3 (connect 0 0 0 1 0 False (PolaritonMode_new 1 0))),
            phn := (phn fresh_heap)
              (0 := add_pairing (0, 1) 0 1 (PhononMode_new 20 (5 / 100)))\<rparr>)))"

definition two_site_cavity :: "unit Cavity" where
  "two_site_cavity =
     \<lparr>polaritons = [0, 1], phonons = [0], current_state = [1, 2, 0, 0, 4, 5, 3],
      current_time = 0, dopri5_stepper = (), abs_stepper_tol = 1 / 10 ^ 6,
      rel_stepper_tol = 1 / 10 ^ 6, used_time_step = 1 / 10 ^ 3, system_dimension = 7,
      evaluating_rhs = False\<rparr>"

definition zero_memory :: "nat \<Rightarrow> real" where
  "zero_memory i = 0"

definition one_memory :: "nat \<Rightarrow> real" where
  "one_memory i = 1"

definition unit_stepper :: "real \<Rightarrow> real \<Rightarrow> unit" where
  "unit_stepper abs_tol rel_tol = ()"

definition halving_try_step :: "(unit, unit Cavity \<times> heap) try_step" where
  "halving_try_step system s x t dt sys = Inr (sys, s, x, t + dt, dt / 2)"

text \<open>
  The names of the oscillators a load creates: those already in the name map and the
  names of the oscillator sections of the configuration.
\<close>

definition created_oscillators :: "('g, 's) loading \<Rightarrow> string set" where
  "created_oscillators st =
     dom (polariton_map (config st))
       \<union> extract_name ` set (get_sections_by_type (parser st) ''polariton'')"

text \<open>
  A sample standard library: it reads the numbers \<open>1\<close>, \<open>2\<close> and \<open>4\<close>, places every new
  object at address \<open>0\<close>, and its \<^verbatim>\<open>std::sqrt\<close> gives \<open>6369051672525773 / 2^52\<close> at \<open>2\<close> (the
  double nearest to the root of \<open>2\<close>) and the root itself at the other arguments the
  samples use (\<open>1\<close> and \<open>4\<close>, whose roots are doubles).
\<close>

definition sample_sqrt :: "real \<Rightarrow> real" where
  "sample_sqrt a = (if a = 2 then 6369051672525773 / 4503599627370496 else sqrt a)"

definition sample_stdlib :: "unit stdlib" where
  "sample_stdlib =
     \<lparr>stod = (\<lambda>s. if s = ''1'' then Some 1 else if s = ''2'' then Some 2
                  else if s = ''4'' then Some 4 else None),
      stoul = (\<lambda>s. None),
      seed_rng = (\<lambda>n. ()), uniform_real_distribution = (\<lambda>a b g. (a, g)),
      normal_distribution = (\<lambda>a b g. (a, g)), new_polariton = (\<lambda>h. 0),
      new_phonon = (\<lambda>h. 0), std_sqrt = sample_sqrt\<rparr>"

text \<open>
  A loading state over a default-constructed cavity and a fresh \<^verbatim>\<open>CavityConfig\<close>, and two
  configurations, each section with a key as \<^verbatim>\<open>ConfigParser::load\<close> stores it: an
  oscillator \<open>a\<close> with a coupling from \<open>a\<close> to an unknown \<open>zz\<close>; the same coupling with no
  oscillator at all.
\<close>

definition fresh_loading :: "(string \<times> (string \<rightharpoonup> string)) list \<Rightarrow> (unit, unit) loading" where
  "fresh_loading secs =
     \<lparr>parser = \<lparr>rng = (), sections = secs\<rparr>,
      config = \<lparr>polariton_map = Map.empty, phonon_map = Map.empty\<rparr>,
      cavity = Cavity_default unit_stepper, store = fresh_heap\<rparr>"

definition dangling_to_loading :: "(unit, unit) loading" where
  "dangling_to_loading =
     fresh_loading [(''polariton a'', [''gamma'' \<mapsto> ''4'']),
                    (''coupling ab'', [''from'' \<mapsto> ''a'', ''to'' \<mapsto> ''zz''])]"

definition dangling_from_loading :: "(unit, unit) loading" where
  "dangling_from_loading =
     fresh_loading [(''coupling ab'', [''from'' \<mapsto> ''a'', ''to'' \<mapsto> ''zz''])]"

text \<open>
  A configuration with an oscillator \<open>a\<close> of amplitude \<open>1\<close> and a reservoir on \<open>a\<close> with
  initial value \<open>1\<close> and the given text for \<^verbatim>\<open>alpha\<close>; \<open>reservoir_loading\<close> is the state in
  which phase 3 of the loader finds it, after phase 1 has created the oscillator.
  \<open>loaded_derivative\<close> reads, from what a loading step returns, the derivative of the
  reservoir that the oscillator at an address owns.
\<close>

definition reservoir_sections :: "string \<Rightarrow> (string \<times> (string \<rightharpoonup> string)) list" where
  "reservoir_sections alpha_text =
     [(''polariton a'', [''gamma'' \<mapsto> ''4'', ''initial_real'' \<mapsto> ''1'']),
      (''reservoir r'', [''target'' \<mapsto> ''a'', ''alpha'' \<mapsto> alpha_text, ''n0'' \<mapsto> ''1''])]"

definition reservoir_loading :: "string \<Rightarrow> (unit, unit) loading" where
  "reservoir_loading alpha_text =
     (fresh_loading (reservoir_sections alpha_text))
       \<lparr>config := \<lparr>polariton_map = [''a'' \<mapsto> 0], phonon_map = Map.empty\<rparr>,
        cavity := (Cavity_default unit_stepper)\<lparr>polaritons := [0]\<rparr>,
        store := set_value 0 (Complex 1 0)
                   (fresh_heap\<lparr>pol := (pol fresh_heap)(0 := PolaritonMode_new 4 0)\<rparr>)\<rparr>"


subsection \<open>Derivatives of the entities\<close>

lemma fold_zero_terms:
  "(\<And>i. i \<in> set xs \<Longrightarrow> f i = (0::complex)) \<Longrightarrow> fold (\<lambda>i acc. acc + f i) xs a = a"
  by (induction xs arbitrary: a) auto

lemma re_mult_cnj: "Re (z * cnj z) = (cmod z)\<^sup>2"
  by (simp only: complex_mult_cnj cmod_power2 Re_complex_of_real)

lemma decoupled_drive:
  assumes "links_decoupled (pol h a)"
  shows "PolaritonMode_derivative h a t =
     - \<i> * (value_pm (pol h a) * (- \<i> * complex_of_real (dissipative_gamma (pol h a))
        + complex_of_real (self_interaction (pol h a)) * value_pm (pol h a) * cnj (value_pm (pol h a))
        + \<i> * complex_of_real (reservoir_coupling (pol h a))
            * (case reservoir_owned (pol h a) of Some r \<Rightarrow> complex_of_real (value_nr r) | None \<Rightarrow> 0))
      + r_driving_amp (pol h a) * cis (r_driving_detuning (pol h a) * t))"
proof -
  let ?p = "pol h a"
  have z: "\<And>i. i \<in> set [0..<n_neighbors ?p] \<Longrightarrow>
     (constant_couplings ?p ! i + phonon_couplings ?p ! i
         * complex_of_real (position (phn h (neighboring_phonons ?p ! i))))
       * cis (signs ?p ! i * (frequency (phn h (neighboring_phonons ?p ! i))
                + detunings_from_resonance ?p ! i) * t)
       * value_pm (pol h (neighboring_polaritons ?p ! i)) = 0"
    using assms by (simp add: links_decoupled_def)
  show ?thesis
    unfolding PolaritonMode_derivative_def Let_def
    by (subst fold_zero_terms[OF z]) simp_all
qed

text \<open>
  C4 (as amended). For an oscillator whose links all have \<open>J = 0\<close> and \<open>g = 0\<close>, the
  derivative is
  \<open>-i*value*(-i*gamma + U*|value|^2 + i*reservoir_coupling*n) - i*drive_amp*exp(i*detuning*t)\<close>
  where \<open>n\<close> is the value of the owned reservoir, or \<open>0\<close> when there is none. When the
  oscillator owns no reservoir this is the formula of the specification, and for
  \<open>gamma = 1\<close>, \<open>U = 0\<close>, no drive, no reservoir and \<open>value = 1\<close> the derivative at \<open>t = 0\<close>
  is \<open>-1\<close>.
\<close>

theorem PolaritonMode_derivative_decoupled:
  assumes "links_decoupled (pol h a)"
  shows "PolaritonMode_derivative h a t =
       - \<i> * value_pm (pol h a) * (- \<i> * complex_of_real (dissipative_gamma (pol h a))
          + complex_of_real (self_interaction (pol h a) * (cmod (value_pm (pol h a)))\<^sup>2)
          + \<i> * complex_of_real (reservoir_coupling (pol h a)
                * (case reservoir_owned (pol h a) of Some r \<Rightarrow> value_nr r | None \<Rightarrow> 0)))
       - \<i> * r_driving_amp (pol h a) * cis (r_driving_detuning (pol h a) * t)
     \<and> (reservoir_owned (pol h a) = None \<longrightarrow>
         PolaritonMode_derivative h a t =
           - \<i> * value_pm (pol h a) * (- \<i> * complex_of_real (dissipative_gamma (pol h a))
              + complex_of_real (self_interaction (pol h a) * (cmod (value_pm (pol h a)))\<^sup>2))
           - \<i> * r_driving_amp (pol h a) * cis (r_driving_detuning (pol h a) * t))
     \<and> (dissipative_gamma (pol h a) = 1 \<and> self_interaction (pol h a) = 0
          \<and> r_driving_amp (pol h a) = 0 \<and> reservoir_owned (pol h a) = None
          \<and> value_pm (pol h a) = 1 \<longrightarrow>
         PolaritonMode_derivative h a 0 = - 1)"
proof -
  have sq: "value_pm (pol h a) * cnj (value_pm (pol h a))
      = complex_of_real ((cmod (value_pm (pol h a)))\<^sup>2)"
    by (simp add: complex_mult_cnj cmod_power2)
  have general: "PolaritonMode_derivative h a t =
       - \<i> * value_pm (pol h a) * (- \<i> * complex_of_real (dissipative_gamma (pol h a))
          + complex_of_real (self_interaction (pol h a) * (cmod (value_pm (pol h a)))\<^sup>2)
          + \<i> * complex_of_real (reservoir_coupling (pol h a)
                * (case reservoir_owned (pol h a) of Some r \<Rightarrow> value_nr r | None \<Rightarrow> 0)))
       - \<i> * r_driving_amp (pol h a) * cis (r_driving_detuning (pol h a) * t)" for t
    unfolding decoupled_drive[OF assms]
    by (simp add: algebra_simps sq split: option.split)
  have no_reservoir: "reservoir_owned (pol h a) = None \<longrightarrow>
         PolaritonMode_derivative h a t =
           - \<i> * value_pm (pol h a) * (- \<i> * complex_of_real (dissipative_gamma (pol h a))
              + complex_of_real (self_interaction (pol h a) * (cmod (value_pm (pol h a)))\<^sup>2))
           - \<i> * r_driving_amp (pol h a) * cis (r_driving_detuning (pol h a) * t)"
    unfolding general by simp
  have particular: "dissipative_gamma (pol h a) = 1 \<and> self_interaction (pol h a) = 0
          \<and> r_driving_amp (pol h a) = 0 \<and> reservoir_owned (pol h a) = None
          \<and> value_pm (pol h a) = 1 \<longrightarrow> PolaritonMode_derivative h a 0 = - 1"
    unfolding general by simp
  from general no_reservoir particular show ?thesis by blast
qed

theorem PolaritonMode_derivative_decoupled_witness:
  "links_decoupled (pol decoupled_site_heap 0)
   \<and> PolaritonMode_derivative decoupled_site_heap 0 0 = - 1"
proof -
  have d: "links_decoupled (pol decoupled_site_heap 0)"
    by (simp add: links_decoupled_def decoupled_site_heap_def fresh_heap_def set_value_def
        connect_def PolaritonMode_new_def)
  have "dissipative_gamma (pol decoupled_site_heap 0) = 1
      \<and> self_interaction (pol decoupled_site_heap 0) = 0
      \<and> r_driving_amp (pol decoupled_site_heap 0) = 0
      \<and> reservoir_owned (pol decoupled_site_heap 0) = None
      \<and> value_pm (pol decoupled_site_heap 0) = 1"
    by (simp add: decoupled_site_heap_def fresh_heap_def set_value_def connect_def
        PolaritonMode_new_def)
  with PolaritonMode_derivative_decoupled[OF d, of 0] d show ?thesis by blast
qed

text \<open>
  The formula of the specification without the reservoir term fails for an oscillator
  that owns a reservoir: with \<open>gamma = 0\<close>, \<open>U = 0\<close>, no drive, no link, \<open>value = 1\<close> and a
  reservoir of coupling \<open>1\<close> and value \<open>1\<close> the derivative is \<open>1\<close>, the formula gives \<open>0\<close>.
\<close>

theorem PolaritonMode_derivative_reservoir_counterexample:
  "links_decoupled (pol pumped_site_heap 0)
   \<and> PolaritonMode_derivative pumped_site_heap 0 0 = 1
   \<and> - \<i> * value_pm (pol pumped_site_heap 0)
         * (- \<i> * complex_of_real (dissipative_gamma (pol pumped_site_heap 0))
            + complex_of_real (self_interaction (pol pumped_site_heap 0)
                * (cmod (value_pm (pol pumped_site_heap 0)))\<^sup>2))
       - \<i> * r_driving_amp (pol pumped_site_heap 0)
           * cis (r_driving_detuning (pol pumped_site_heap 0) * 0) = 0"
  by (simp add: links_decoupled_def PolaritonMode_derivative_def pumped_site_heap_def
      fresh_heap_def set_value_def add_reservoir_def NonResonantDriving_new_def
      PolaritonMode_new_def)

text \<open>
  C5. For a mechanical mode whose pairings all have coupling \<open>0\<close> (also when it has no
  pairing), \<open>second_derivative(t)\<close> is \<open>-Omega^2*position - Gamma*velocity\<close> at every
  time \<open>t\<close>; for \<open>Omega = 20\<close>, \<open>Gamma = 0.05\<close>, \<open>position = 1\<close>, \<open>velocity = 0\<close> it is \<open>-400\<close>.
\<close>

theorem PhononMode_second_derivative_decoupled:
  assumes "pairings_decoupled (phn h a)"
  shows "PhononMode_second_derivative h a t =
       - (frequency (phn h a))\<^sup>2 * position (phn h a) - dissipation (phn h a) * velocity (phn h a)
     \<and> (frequency (phn h a) = 20 \<and> dissipation (phn h a) = 5 / 100
          \<and> position (phn h a) = 1 \<and> velocity (phn h a) = 0 \<longrightarrow>
        PhononMode_second_derivative h a t = - 400)"
proof -
  let ?ph = "phn h a"
  have z: "\<And>i. i \<in> set [0..<n_pairings ?ph] \<Longrightarrow>
      complex_of_real (couplings ?ph ! i)
        * value_pm (pol h (fst (pairs ?ph ! i)))
        * cnj (value_pm (pol h (snd (pairs ?ph ! i))))
        * cis (- (frequency ?ph + detunings ?ph ! i) * t) = 0"
    using assms by (simp add: pairings_decoupled_def)
  have general: "PhononMode_second_derivative h a t =
       - (frequency ?ph)\<^sup>2 * position ?ph - dissipation ?ph * velocity ?ph"
    unfolding PhononMode_second_derivative_def Let_def
    by (subst fold_zero_terms[OF z]) (simp_all add: power2_eq_square)
  show ?thesis unfolding general by simp
qed

theorem PhononMode_second_derivative_decoupled_witness:
  "pairings_decoupled (phn decoupled_mode_heap 0)
   \<and> PhononMode_second_derivative decoupled_mode_heap 0 3 = - 400"
proof -
  have d: "pairings_decoupled (phn decoupled_mode_heap 0)"
    by (simp add: pairings_decoupled_def decoupled_mode_heap_def fresh_heap_def
        set_position_def add_pairing_def PhononMode_new_def)
  have "frequency (phn decoupled_mode_heap 0) = 20
      \<and> dissipation (phn decoupled_mode_heap 0) = 5 / 100
      \<and> position (phn decoupled_mode_heap 0) = 1
      \<and> velocity (phn decoupled_mode_heap 0) = 0"
    by (simp add: decoupled_mode_heap_def fresh_heap_def set_position_def add_pairing_def
        PhononMode_new_def)
  with PhononMode_second_derivative_decoupled[OF d, of 3] d show ?thesis by blast
qed

text \<open>
  C6. For every reservoir and every time \<open>t\<close>, \<open>NonResonantDriving::derivative(t)\<close> is
  \<open>tau * (power - value * (1 + alpha^2 * |z|^2))\<close>, where \<open>z\<close> is the amplitude, at the
  time of the call, of the oscillator the reservoir points to.
\<close>

theorem NonResonantDriving_derivative_formula:
  "NonResonantDriving_derivative h r t =
     time_factor r * (power_nr r - value_nr r
       * (1 + (alpha r)\<^sup>2 * (cmod (value_pm (pol h (polariton r))))\<^sup>2))"
  unfolding NonResonantDriving_derivative_def Let_def re_mult_cnj
  by (simp add: power2_eq_square[of "alpha r"])

subsection \<open>Packing, unpacking and the vector field\<close>

lemma ebind_Inr_iff: "ebind m f = Inr y \<longleftrightarrow> (\<exists>x. m = Inr x \<and> f x = Inr y)"
  by (cases m) auto

lemma length_polariton_slots [simp]: "length (polariton_slots h ps) = 2 * length ps"
  by (induction ps) (simp_all add: polariton_slots_def)

lemma length_phonon_slots [simp]: "length (phonon_slots h ps) = 2 * length ps"
  by (induction ps) (simp_all add: phonon_slots_def)

lemma length_reservoir_slots [simp]: "length (reservoir_slots h ps) = length (reservoir_owners h ps)"
  by (simp add: reservoir_slots_def)

lemma count_reservoirs_eq: "count_reservoirs h ps N = N + length (reservoir_owners h ps)"
  by (induction ps arbitrary: N) (simp_all add: reservoir_owners_def)

lemma pack_polaritons_segment:
  "length old = 2 * length ps \<Longrightarrow>
   pack_polaritons h ps (pre @ old @ rest) (length pre)
     = Inr (pre @ polariton_slots h ps @ rest, length pre + 2 * length ps)"
proof (induction ps arbitrary: pre old)
  case Nil
  then show ?case by (simp add: polariton_slots_def)
next
  case (Cons p ps)
  then obtain a b old' where old: "old = a # b # old'" and len: "length old' = 2 * length ps"
    by (cases old; cases "tl old") auto
  let ?v = "value_pm (pol h p)"
  have "pack_polaritons h ps ((pre @ [Re ?v, Im ?v]) @ old' @ rest) (length (pre @ [Re ?v, Im ?v]))
     = Inr ((pre @ [Re ?v, Im ?v]) @ polariton_slots h ps @ rest, length (pre @ [Re ?v, Im ?v]) + 2 * length ps)"
    using Cons.IH[OF len] by blast
  then show ?case
    by (simp add: old set_elem_def Let_def list_update_append nth_append polariton_slots_def)
qed

lemma pack_polaritons_success:
  "pack_polaritons h ps st idx = Inr (st', idx') \<Longrightarrow>
     idx' = idx + 2 * length ps \<and> length st' = length st \<and> (ps \<noteq> [] \<longrightarrow> idx' \<le> length st)"
proof (induction ps arbitrary: st idx)
  case Nil
  then show ?case by simp
next
  case (Cons p ps)
  then show ?case
    by (auto simp: set_elem_def Let_def split: if_splits) fastforce+
qed


lemma pack_phonons_segment:
  "length old = 2 * length phs \<Longrightarrow>
   pack_phonons h phs (pre @ old @ rest) (length pre)
     = Inr (pre @ phonon_slots h phs @ rest, length pre + 2 * length phs)"
proof (induction phs arbitrary: pre old)
  case Nil
  then show ?case by (simp add: phonon_slots_def)
next
  case (Cons ph phs)
  then obtain a b old' where old: "old = a # b # old'" and len: "length old' = 2 * length phs"
    by (cases old; cases "tl old") auto
  let ?w = "[position (phn h ph), velocity (phn h ph)]"
  have "pack_phonons h phs ((pre @ ?w) @ old' @ rest) (length (pre @ ?w))
     = Inr ((pre @ ?w) @ phonon_slots h phs @ rest, length (pre @ ?w) + 2 * length phs)"
    using Cons.IH[OF len] by blast
  then show ?case
    by (simp add: old set_elem_def list_update_append nth_append phonon_slots_def)
qed

lemma pack_phonons_success:
  "pack_phonons h phs st idx = Inr (st', idx') \<Longrightarrow>
     idx' = idx + 2 * length phs \<and> length st' = length st \<and> (phs \<noteq> [] \<longrightarrow> idx' \<le> length st)"
proof (induction phs arbitrary: st idx)
  case Nil
  then show ?case by simp
next
  case (Cons p ps)
  then show ?case
    by (auto simp: set_elem_def split: if_splits) fastforce+
qed

lemma pack_reservoirs_segment:
  "length old = length (reservoir_owners h ps) \<Longrightarrow>
   pack_reservoirs h ps (pre @ old @ rest) (length pre)
     = Inr (pre @ reservoir_slots h ps @ rest, length pre + length (reservoir_owners h ps))"
proof (induction ps arbitrary: pre old)
  case Nil
  then show ?case by (simp add: reservoir_slots_def reservoir_owners_def)
next
  case (Cons p ps)
  show ?case
  proof (cases "reservoir_owned (pol h p)")
    case None
    with Cons show ?thesis by (simp add: reservoir_slots_def reservoir_owners_def)
  next
    case (Some r)
    with Cons.prems obtain a old' where old: "old = a # old'"
      and len: "length old' = length (reservoir_owners h ps)"
      by (cases old) (auto simp: reservoir_owners_def)
    have "pack_reservoirs h ps ((pre @ [value_nr r]) @ old' @ rest) (length (pre @ [value_nr r]))
       = Inr ((pre @ [value_nr r]) @ reservoir_slots h ps @ rest,
              length (pre @ [value_nr r]) + length (reservoir_owners h ps))"
      using Cons.IH[OF len] by blast
    with Some show ?thesis
      by (simp add: old set_elem_def list_update_append nth_append reservoir_slots_def
          reservoir_owners_def)
  qed
qed

lemma pack_reservoirs_success:
  "pack_reservoirs h ps st idx = Inr (st', idx') \<Longrightarrow>
     idx' = idx + length (reservoir_owners h ps) \<and> length st' = length st
     \<and> (reservoir_owners h ps \<noteq> [] \<longrightarrow> idx' \<le> length st)"
proof (induction ps arbitrary: st idx)
  case Nil
  then show ?case by (simp add: reservoir_owners_def)
next
  case (Cons p ps)
  then show ?case
    by (auto simp: set_elem_def reservoir_owners_def split: if_splits option.splits) fastforce+
qed

lemma pack_state_segment:
  assumes "current_state c = old @ rest" and "length old = length (flat_state h c)"
  shows "pack_state h c = Inr (c\<lparr>current_state := flat_state h c @ rest\<rparr>)"
proof -
  let ?p = "2 * length (polaritons c)" and ?m = "2 * length (phonons c)"
  let ?r = "length (reservoir_owners h (polaritons c))"
  define o1 where "o1 = take ?p old"
  define o2 where "o2 = take ?m (drop ?p old)"
  define o3 where "o3 = drop (?p + ?m) old"
  have len: "length old = ?p + ?m + ?r" using assms(2) by (simp add: flat_state_def)
  have old: "old = o1 @ o2 @ o3"
    unfolding o1_def o2_def o3_def by (metis append_take_drop_id drop_drop add.commute)
  have l1: "length o1 = ?p" and l2: "length o2 = ?m" and l3: "length o3 = ?r"
    using len by (simp_all add: o1_def o2_def o3_def)
  have s1: "pack_polaritons h (polaritons c) ([] @ o1 @ (o2 @ o3 @ rest)) (length ([]::real list))
      = Inr ([] @ polariton_slots h (polaritons c) @ (o2 @ o3 @ rest), length ([]::real list) + ?p)"
    by (rule pack_polaritons_segment[OF l1])
  have s2: "pack_phonons h (phonons c) (polariton_slots h (polaritons c) @ o2 @ (o3 @ rest))
        (length (polariton_slots h (polaritons c)))
      = Inr (polariton_slots h (polaritons c) @ phonon_slots h (phonons c) @ (o3 @ rest),
             length (polariton_slots h (polaritons c)) + ?m)"
    by (rule pack_phonons_segment[OF l2])
  have s3: "pack_reservoirs h (polaritons c)
        ((polariton_slots h (polaritons c) @ phonon_slots h (phonons c)) @ o3 @ rest)
        (length (polariton_slots h (polaritons c) @ phonon_slots h (phonons c)))
      = Inr ((polariton_slots h (polaritons c) @ phonon_slots h (phonons c))
               @ reservoir_slots h (polaritons c) @ rest,
             length (polariton_slots h (polaritons c) @ phonon_slots h (phonons c)) + ?r)"
    by (rule pack_reservoirs_segment[OF l3])
  show ?thesis
    using s1 s2 s3 by (simp add: pack_state_def assms(1) old flat_state_def)
qed

lemma pack_state_success:
  assumes "pack_state h c = Inr c'"
  shows "length (flat_state h c) \<le> length (current_state c)"
proof -
  from assms obtain st1 i1 st2 i2 st3 i3 where
    a: "pack_polaritons h (polaritons c) (current_state c) 0 = Inr (st1, i1)" and
    b: "pack_phonons h (phonons c) st1 i1 = Inr (st2, i2)" and
    d: "pack_reservoirs h (polaritons c) st2 i2 = Inr (st3, i3)"
    unfolding pack_state_def by (auto simp: ebind_Inr_iff)
  note A = pack_polaritons_success[OF a] and B = pack_phonons_success[OF b]
    and D = pack_reservoirs_success[OF d]
  show ?thesis
    using A B D by (cases "polaritons c = []"; cases "phonons c = []";
        cases "reservoir_owners h (polaritons c) = []")
      (auto simp: flat_state_def)
qed

lemma set_value_same: "set_value p (value_pm (pol h p)) h = h"
  by (simp add: set_value_def)

lemma set_posvel_same:
  "set_velocity ph (velocity (phn h ph)) (set_position ph (position (phn h ph)) h) = h"
  by (simp add: set_velocity_def set_position_def)

lemma set_value_reservoir_same:
  assumes "reservoir_owned (pol h p) = Some r"
  shows "set_value_reservoir p (value_nr r) h = h"
proof -
  have "(pol h p)\<lparr>reservoir_owned := Some r\<rparr>
      = (pol h p)\<lparr>reservoir_owned := reservoir_owned (pol h p)\<rparr>"
    by (simp only: assms)
  then have e: "(pol h p)\<lparr>reservoir_owned := Some r\<rparr> = pol h p" by simp
  show ?thesis by (simp add: set_value_reservoir_def assms e)
qed

lemma unpack_polaritons_own:
  "unpack_polaritons (pre @ polariton_slots h ps @ rest) ps (length pre) h
     = Inr (h, length pre + 2 * length ps)"
proof (induction ps arbitrary: pre)
  case Nil
  show ?case by simp
next
  case (Cons p ps)
  let ?w = "[Re (value_pm (pol h p)), Im (value_pm (pol h p))]"
  have "unpack_polaritons ((pre @ ?w) @ polariton_slots h ps @ rest) ps (length (pre @ ?w)) h
      = Inr (h, length (pre @ ?w) + 2 * length ps)"
    by (rule Cons.IH)
  then show ?case
    by (simp add: polariton_slots_def elem_def nth_append set_value_same)
qed

lemma unpack_phonons_own:
  "unpack_phonons (pre @ phonon_slots h phs @ rest) phs (length pre) h
     = Inr (h, length pre + 2 * length phs)"
proof (induction phs arbitrary: pre)
  case Nil
  show ?case by simp
next
  case (Cons ph phs)
  let ?w = "[position (phn h ph), velocity (phn h ph)]"
  have "unpack_phonons ((pre @ ?w) @ phonon_slots h phs @ rest) phs (length (pre @ ?w)) h
      = Inr (h, length (pre @ ?w) + 2 * length phs)"
    by (rule Cons.IH)
  then show ?case
    by (simp add: phonon_slots_def elem_def nth_append set_posvel_same)
qed

lemma unpack_reservoirs_own:
  "unpack_reservoirs (pre @ reservoir_slots h ps @ rest) ps (length pre) h
     = Inr (h, length pre + length (reservoir_owners h ps))"
proof (induction ps arbitrary: pre)
  case Nil
  show ?case by (simp add: reservoir_owners_def)
next
  case (Cons p ps)
  show ?case
  proof (cases "reservoir_owned (pol h p)")
    case None
    with Cons.IH[of pre] show ?thesis by (simp add: reservoir_slots_def reservoir_owners_def)
  next
    case (Some r)
    have "unpack_reservoirs ((pre @ [value_nr r]) @ reservoir_slots h ps @ rest) ps
        (length (pre @ [value_nr r])) h
      = Inr (h, length (pre @ [value_nr r]) + length (reservoir_owners h ps))"
      by (rule Cons.IH)
    with Some show ?thesis
      by (simp add: reservoir_slots_def reservoir_owners_def elem_def nth_append
          set_value_reservoir_same)
  qed
qed

lemma unpack_state_own:
  assumes "polaritons c' = polaritons c" and "phonons c' = phonons c"
  shows "unpack_state c' (flat_state h c @ rest) h = Inr h"
proof -
  let ?P = "polariton_slots h (polaritons c)" and ?M = "phonon_slots h (phonons c)"
  let ?R = "reservoir_slots h (polaritons c)"
  have s1: "unpack_polaritons ([] @ ?P @ (?M @ ?R @ rest)) (polaritons c) (length ([]::real list)) h
      = Inr (h, length ([]::real list) + 2 * length (polaritons c))"
    by (rule unpack_polaritons_own)
  have s2: "unpack_phonons (?P @ ?M @ (?R @ rest)) (phonons c) (length ?P) h
      = Inr (h, length ?P + 2 * length (phonons c))"
    by (rule unpack_phonons_own)
  have s3: "unpack_reservoirs ((?P @ ?M) @ ?R @ rest) (polaritons c) (length (?P @ ?M)) h
      = Inr (h, length (?P @ ?M) + length (reservoir_owners h (polaritons c)))"
    by (rule unpack_reservoirs_own)
  show ?thesis
    using s1 s2 s3 by (simp add: unpack_state_def flat_state_def assms)
qed

text \<open>
  C3. \<^verbatim>\<open>pack_state()\<close> followed by \<^verbatim>\<open>unpack_state(current_state)\<close> leaves every entity as it
  was: the whole store is unchanged, so every oscillator amplitude, every position and
  velocity and every reservoir value keeps its value. \<^verbatim>\<open>pack_state()\<close> returns whenever the
  state vector has room for the entities, as it has in a constructed cavity.
\<close>

theorem pack_unpack_roundtrip:
  "(length (flat_state h c) \<le> length (current_state c) \<longrightarrow> (\<exists>c'. pack_state h c = Inr c'))
   \<and> (\<forall>c'. pack_state h c = Inr c' \<longrightarrow> unpack_state c' (current_state c') h = Inr h)"
proof (intro conjI impI allI)
  assume le: "length (flat_state h c) \<le> length (current_state c)"
  have "pack_state h c = Inr (c\<lparr>current_state := flat_state h c
      @ drop (length (flat_state h c)) (current_state c)\<rparr>)"
    by (rule pack_state_segment[where old = "take (length (flat_state h c)) (current_state c)"])
      (use le in simp_all)
  then show "\<exists>c'. pack_state h c = Inr c'" by blast
next
  fix c' assume ok: "pack_state h c = Inr c'"
  have le: "length (flat_state h c) \<le> length (current_state c)"
    by (rule pack_state_success[OF ok])
  have "pack_state h c = Inr (c\<lparr>current_state := flat_state h c
      @ drop (length (flat_state h c)) (current_state c)\<rparr>)"
    by (rule pack_state_segment[where old = "take (length (flat_state h c)) (current_state c)"])
      (use le in simp_all)
  with ok have c': "c' = c\<lparr>current_state := flat_state h c
      @ drop (length (flat_state h c)) (current_state c)\<rparr>" by simp
  show "unpack_state c' (current_state c') h = Inr h"
    unfolding c' by (simp add: unpack_state_own)
qed

lemma unpack_polaritons_writes:
  "length seg = 2 * length ps \<Longrightarrow>
   unpack_polaritons (pre @ seg @ rest) ps (length pre) h
     = Inr (fold apply_wr (polariton_writes seg ps) h, length pre + 2 * length ps)"
proof (induction ps arbitrary: pre seg h)
  case Nil
  then show ?case by simp
next
  case (Cons p ps)
  then obtain a b seg' where seg: "seg = a # b # seg'" and len: "length seg' = 2 * length ps"
    by (cases seg; cases "tl seg") auto
  have "unpack_polaritons ((pre @ [a, b]) @ seg' @ rest) ps (length (pre @ [a, b]))
          (set_value p (Complex a b) h)
      = Inr (fold apply_wr (polariton_writes seg' ps) (set_value p (Complex a b) h),
             length (pre @ [a, b]) + 2 * length ps)"
    by (rule Cons.IH[OF len])
  then show ?case by (simp add: seg elem_def nth_append)
qed

lemma unpack_phonons_writes:
  "length seg = 2 * length phs \<Longrightarrow>
   unpack_phonons (pre @ seg @ rest) phs (length pre) h
     = Inr (fold apply_wr (phonon_writes seg phs) h, length pre + 2 * length phs)"
proof (induction phs arbitrary: pre seg h)
  case Nil
  then show ?case by simp
next
  case (Cons ph phs)
  then obtain a b seg' where seg: "seg = a # b # seg'" and len: "length seg' = 2 * length phs"
    by (cases seg; cases "tl seg") auto
  have "unpack_phonons ((pre @ [a, b]) @ seg' @ rest) phs (length (pre @ [a, b]))
          (set_velocity ph b (set_position ph a h))
      = Inr (fold apply_wr (phonon_writes seg' phs) (set_velocity ph b (set_position ph a h)),
             length (pre @ [a, b]) + 2 * length phs)"
    by (rule Cons.IH[OF len])
  then show ?case by (simp add: seg elem_def nth_append)
qed

lemma apply_wr_owner:
  "reservoir_owned (pol (apply_wr w h) p) = None \<longleftrightarrow> reservoir_owned (pol h p) = None"
  by (cases w) (simp_all add: set_value_def set_position_def set_velocity_def
      set_value_reservoir_def)

lemma fold_apply_wr_owner:
  "reservoir_owned (pol (fold apply_wr ws h) p) = None \<longleftrightarrow> reservoir_owned (pol h p) = None"
  by (induction ws arbitrary: h) (simp_all add: apply_wr_owner)

lemma reservoir_owners_fold: "reservoir_owners (fold apply_wr ws h) ps = reservoir_owners h ps"
  by (simp add: reservoir_owners_def fold_apply_wr_owner)

lemma reservoir_writes_cong:
  "(\<And>p. reservoir_owned (pol g p) = None \<longleftrightarrow> reservoir_owned (pol h p) = None) \<Longrightarrow>
   reservoir_writes g seg ps = reservoir_writes h seg ps"
  by (induction ps arbitrary: seg) (simp_all split: list.splits)

lemma unpack_reservoirs_writes:
  "length seg = length (reservoir_owners h ps) \<Longrightarrow>
   unpack_reservoirs (pre @ seg @ rest) ps (length pre) h
     = Inr (fold apply_wr (reservoir_writes h seg ps) h,
            length pre + length (reservoir_owners h ps))"
proof (induction ps arbitrary: pre seg h)
  case Nil
  then show ?case by (simp add: reservoir_owners_def)
next
  case (Cons p ps)
  show ?case
  proof (cases "reservoir_owned (pol h p)")
    case None
    with Cons.prems have "length seg = length (reservoir_owners h ps)"
      by (simp add: reservoir_owners_def)
    from Cons.IH[OF this, of pre] None show ?thesis
      by (simp add: reservoir_owners_def)
  next
    case (Some r)
    with Cons.prems obtain n seg' where seg: "seg = n # seg'"
      and len: "length seg' = length (reservoir_owners h ps)"
      by (cases seg) (auto simp: reservoir_owners_def)
    let ?h1 = "set_value_reservoir p n h"
    have own: "\<And>q. reservoir_owned (pol ?h1 q) = None \<longleftrightarrow> reservoir_owned (pol h q) = None"
      using apply_wr_owner[of "SetReservoir p n" h] by simp
    have len1: "length seg' = length (reservoir_owners ?h1 ps)"
      using len by (simp add: reservoir_owners_def own)
    have "unpack_reservoirs ((pre @ [n]) @ seg' @ rest) ps (length (pre @ [n])) ?h1
        = Inr (fold apply_wr (reservoir_writes ?h1 seg' ps) ?h1,
               length (pre @ [n]) + length (reservoir_owners ?h1 ps))"
      by (rule Cons.IH[OF len1])
    moreover have "reservoir_writes ?h1 seg' ps = reservoir_writes h seg' ps"
      by (rule reservoir_writes_cong) (rule own)
    moreover have "reservoir_owners ?h1 ps = reservoir_owners h ps"
      by (simp add: reservoir_owners_def own)
    ultimately show ?thesis using Some
      by (simp add: seg elem_def nth_append reservoir_owners_def)
  qed
qed

lemma unpack_state_writes:
  assumes "length x = 2 * length (polaritons c) + 2 * length (phonons c)
      + length (reservoir_owners h (polaritons c))"
  shows "unpack_state c x h = Inr (fold apply_wr (state_writes h x c) h)"
proof -
  let ?p = "2 * length (polaritons c)" and ?m = "2 * length (phonons c)"
  define x1 where "x1 = take ?p x"
  define x2 where "x2 = take ?m (drop ?p x)"
  define x3 where "x3 = drop (?p + ?m) x"
  have x: "x = x1 @ x2 @ x3"
    unfolding x1_def x2_def x3_def by (metis append_take_drop_id drop_drop add.commute)
  have l1: "length x1 = ?p" and l2: "length x2 = ?m"
    and l3: "length x3 = length (reservoir_owners h (polaritons c))"
    using assms by (simp_all add: x1_def x2_def x3_def)
  let ?h1 = "fold apply_wr (polariton_writes x1 (polaritons c)) h"
  let ?h2 = "fold apply_wr (phonon_writes x2 (phonons c)) ?h1"
  have own2: "\<And>q. reservoir_owned (pol ?h2 q) = None \<longleftrightarrow> reservoir_owned (pol h q) = None"
    by (simp add: fold_apply_wr_owner)
  have l3': "length x3 = length (reservoir_owners ?h2 (polaritons c))"
    using l3 by (simp add: reservoir_owners_fold)
  have s1: "unpack_polaritons ([] @ x1 @ (x2 @ x3)) (polaritons c) (length ([]::real list)) h
      = Inr (?h1, length ([]::real list) + ?p)"
    by (rule unpack_polaritons_writes[OF l1])
  have s2: "unpack_phonons (x1 @ x2 @ x3) (phonons c) (length x1) ?h1
      = Inr (?h2, length x1 + ?m)"
    by (rule unpack_phonons_writes[OF l2])
  have s3: "unpack_reservoirs ((x1 @ x2) @ x3 @ []) (polaritons c) (length (x1 @ x2)) ?h2
      = Inr (fold apply_wr (reservoir_writes ?h2 x3 (polaritons c)) ?h2,
             length (x1 @ x2) + length (reservoir_owners ?h2 (polaritons c)))"
    by (rule unpack_reservoirs_writes[OF l3'])
  have w: "reservoir_writes ?h2 x3 (polaritons c) = reservoir_writes h x3 (polaritons c)"
    by (rule reservoir_writes_cong) (rule own2)
  have sw: "state_writes h x c = polariton_writes x1 (polaritons c)
      @ phonon_writes x2 (phonons c) @ reservoir_writes h x3 (polaritons c)"
    by (simp add: state_writes_def x1_def x2_def x3_def)
  show ?thesis
    unfolding sw using s1 s2 s3
    by (simp add: unpack_state_def l1 l2 w x[symmetric])
qed

lemma apply_wr_absorb: "apply_wr u (apply_wr v (apply_wr u h)) = apply_wr u (apply_wr v h)"
  by (cases u; cases v)
    (auto simp: set_value_def set_position_def set_velocity_def set_value_reservoir_def
      fun_eq_iff option.map_comp comp_def intro!: heap.equality)

lemma fold_apply_wr_absorb:
  "apply_wr u (fold apply_wr ws (apply_wr u h)) = apply_wr u (fold apply_wr ws h)"
proof (induction ws rule: rev_induct)
  case Nil
  show ?case using apply_wr_absorb[of u u h] by (cases u)
      (simp_all add: set_value_def set_position_def set_velocity_def set_value_reservoir_def
        option.map_comp comp_def)
next
  case (snoc v ws)
  have "apply_wr u (apply_wr v (fold apply_wr ws (apply_wr u h)))
      = apply_wr u (apply_wr v (apply_wr u (fold apply_wr ws (apply_wr u h))))"
    by (simp only: apply_wr_absorb)
  also have "\<dots> = apply_wr u (apply_wr v (apply_wr u (fold apply_wr ws h)))"
    by (simp only: snoc.IH)
  also have "\<dots> = apply_wr u (apply_wr v (fold apply_wr ws h))"
    by (simp only: apply_wr_absorb)
  finally show ?case by simp
qed

lemma fold_apply_wr_idem:
  "fold apply_wr ws (fold apply_wr ws h) = fold apply_wr ws h"
proof (induction ws arbitrary: h rule: rev_induct)
  case Nil
  show ?case by simp
next
  case (snoc w ws)
  have "fold apply_wr (ws @ [w]) (fold apply_wr (ws @ [w]) h)
      = apply_wr w (fold apply_wr ws (apply_wr w (fold apply_wr ws h)))" by simp
  also have "\<dots> = apply_wr w (fold apply_wr ws (fold apply_wr ws h))"
    by (rule fold_apply_wr_absorb)
  also have "\<dots> = apply_wr w (fold apply_wr ws h)" by (simp only: snoc.IH)
  finally show ?case by simp
qed

lemma state_writes_cong:
  assumes "\<And>p. reservoir_owned (pol g p) = None \<longleftrightarrow> reservoir_owned (pol h p) = None"
    and "polaritons c' = polaritons c" and "phonons c' = phonons c"
  shows "state_writes g x c' = state_writes h x c"
  by (simp add: state_writes_def assms(2,3) reservoir_writes_cong[of g h, OF assms(1)])

lemma length_polariton_derivs [simp]: "length (polariton_derivs h t ps) = 2 * length ps"
  by (induction ps) (simp_all add: polariton_derivs_def)

lemma length_phonon_derivs [simp]: "length (phonon_derivs h t ps) = 2 * length ps"
  by (induction ps) (simp_all add: phonon_derivs_def)

lemma length_reservoir_derivs [simp]:
  "length (reservoir_derivs h t ps) = length (reservoir_owners h ps)"
  by (simp add: reservoir_derivs_def)

lemma derive_polaritons_segment:
  "length old = 2 * length ps \<Longrightarrow>
   derive_polaritons h t ps (pre @ old @ rest) (length pre)
     = Inr (pre @ polariton_derivs h t ps @ rest, length pre + 2 * length ps)"
proof (induction ps arbitrary: pre old)
  case Nil
  then show ?case by (simp add: polariton_derivs_def)
next
  case (Cons p ps)
  then obtain a b old' where old: "old = a # b # old'" and len: "length old' = 2 * length ps"
    by (cases old; cases "tl old") auto
  let ?w = "[Re (PolaritonMode_derivative h p t), Im (PolaritonMode_derivative h p t)]"
  have "derive_polaritons h t ps ((pre @ ?w) @ old' @ rest) (length (pre @ ?w))
     = Inr ((pre @ ?w) @ polariton_derivs h t ps @ rest, length (pre @ ?w) + 2 * length ps)"
    using Cons.IH[OF len] by blast
  then show ?case
    by (simp add: old set_elem_def Let_def list_update_append nth_append polariton_derivs_def)
qed

lemma derive_phonons_segment:
  "length old = 2 * length phs \<Longrightarrow>
   derive_phonons h t phs (pre @ old @ rest) (length pre)
     = Inr (pre @ phonon_derivs h t phs @ rest, length pre + 2 * length phs)"
proof (induction phs arbitrary: pre old)
  case Nil
  then show ?case by (simp add: phonon_derivs_def)
next
  case (Cons ph phs)
  then obtain a b old' where old: "old = a # b # old'" and len: "length old' = 2 * length phs"
    by (cases old; cases "tl old") auto
  let ?w = "[velocity (phn h ph), PhononMode_second_derivative h ph t]"
  have "derive_phonons h t phs ((pre @ ?w) @ old' @ rest) (length (pre @ ?w))
     = Inr ((pre @ ?w) @ phonon_derivs h t phs @ rest, length (pre @ ?w) + 2 * length phs)"
    using Cons.IH[OF len] by blast
  then show ?case
    by (simp add: old set_elem_def list_update_append nth_append phonon_derivs_def)
qed

lemma derive_reservoirs_segment:
  "length old = length (reservoir_owners h ps) \<Longrightarrow>
   derive_reservoirs h t ps (pre @ old @ rest) (length pre)
     = Inr (pre @ reservoir_derivs h t ps @ rest, length pre + length (reservoir_owners h ps))"
proof (induction ps arbitrary: pre old)
  case Nil
  then show ?case by (simp add: reservoir_derivs_def reservoir_owners_def)
next
  case (Cons p ps)
  show ?case
  proof (cases "reservoir_owned (pol h p)")
    case None
    with Cons show ?thesis by (simp add: reservoir_derivs_def reservoir_owners_def)
  next
    case (Some r)
    with Cons.prems obtain a old' where old: "old = a # old'"
      and len: "length old' = length (reservoir_owners h ps)"
      by (cases old) (auto simp: reservoir_owners_def)
    let ?w = "[NonResonantDriving_derivative h r t]"
    have "derive_reservoirs h t ps ((pre @ ?w) @ old' @ rest) (length (pre @ ?w))
       = Inr ((pre @ ?w) @ reservoir_derivs h t ps @ rest,
              length (pre @ ?w) + length (reservoir_owners h ps))"
      using Cons.IH[OF len] by blast
    with Some show ?thesis
      by (simp add: old set_elem_def list_update_append nth_append reservoir_derivs_def
          reservoir_owners_def)
  qed
qed

lemma length_set_size [simp]: "length (set_size u n x) = n"
  by (simp add: set_size_def)

lemma derive_all:
  assumes "length d = 2 * length ps + 2 * length phs + length (reservoir_owners h ps)"
  shows "ebind (derive_polaritons h t ps d 0) (\<lambda>(dxdt, idx).
         ebind (derive_phonons h t phs dxdt idx) (\<lambda>(dxdt, idx).
         ebind (derive_reservoirs h t ps dxdt idx) (\<lambda>(dxdt, idx). Inr (f dxdt))))
       = Inr (f (polariton_derivs h t ps @ phonon_derivs h t phs @ reservoir_derivs h t ps))"
proof -
  let ?p = "2 * length ps" and ?m = "2 * length phs"
  define o1 where "o1 = take ?p d"
  define o2 where "o2 = take ?m (drop ?p d)"
  define o3 where "o3 = drop (?p + ?m) d"
  have d: "d = o1 @ o2 @ o3"
    unfolding o1_def o2_def o3_def by (metis append_take_drop_id drop_drop add.commute)
  have l1: "length o1 = ?p" and l2: "length o2 = ?m"
    and l3: "length o3 = length (reservoir_owners h ps)"
    using assms by (simp_all add: o1_def o2_def o3_def)
  let ?P = "polariton_derivs h t ps" and ?M = "phonon_derivs h t phs"
  have s1: "derive_polaritons h t ps ([] @ o1 @ (o2 @ o3)) (length ([]::real list))
      = Inr ([] @ ?P @ (o2 @ o3), length ([]::real list) + ?p)"
    by (rule derive_polaritons_segment[OF l1])
  have s2: "derive_phonons h t phs (?P @ o2 @ o3) (length ?P)
      = Inr (?P @ ?M @ o3, length ?P + ?m)"
    by (rule derive_phonons_segment[OF l2])
  have s3: "derive_reservoirs h t ps ((?P @ ?M) @ o3 @ []) (length (?P @ ?M))
      = Inr ((?P @ ?M) @ reservoir_derivs h t ps @ [],
             length (?P @ ?M) + length (reservoir_owners h ps))"
    by (rule derive_reservoirs_segment[OF l3])
  show ?thesis using s1 s2 s3 by (simp add: d)
qed

lemma operator_call_eq:
  assumes "layout_ok c h" and "length x = system_dimension c"
  shows "operator_call u x dxdt t (c, h)
     = Inr ((c\<lparr>evaluating_rhs := False\<rparr>, fold apply_wr (state_writes h x c) h),
            vector_field (fold apply_wr (state_writes h x c) h) t c)"
proof -
  let ?h1 = "fold apply_wr (state_writes h x c) h"
  let ?c1 = "c\<lparr>evaluating_rhs := True\<rparr>"
  have len: "length x = 2 * length (polaritons c) + 2 * length (phonons c)
      + length (reservoir_owners h (polaritons c))"
    using assms by (simp add: layout_ok_def)
  have un: "unpack_state ?c1 x h = Inr ?h1"
    using unpack_state_writes[of x ?c1 h] len state_writes_cong[of h h ?c1 c x] by simp
  have dl: "length (set_size u (system_dimension c) dxdt)
      = 2 * length (polaritons c) + 2 * length (phonons c)
        + length (reservoir_owners ?h1 (polaritons c))"
    using assms(1) by (simp add: layout_ok_def reservoir_owners_fold)
  show ?thesis
    unfolding operator_call_def
    by (simp add: Let_def un derive_all[OF dl] vector_field_def)
qed

text \<open>
  C7. In a cavity whose recorded dimension counts its entities, for a vector \<open>x\<close> of that
  dimension and a time \<open>t\<close>, \<^verbatim>\<open>operator()(x, dxdt, t)\<close> returns, and a second call with the
  same \<open>(x, t)\<close> on the state left by the first writes the same derivative vector, whatever
  the two output vectors held before.
\<close>

theorem operator_call_twice:
  assumes "layout_ok c h" and "length x = system_dimension c"
  shows "\<exists>c1 h1 d. operator_call u x dxdt t (c, h) = Inr ((c1, h1), d)
           \<and> operator_call u' x dxdt' t (c1, h1) = Inr ((c1, h1), d)"
proof -
  let ?h1 = "fold apply_wr (state_writes h x c) h"
  let ?c1 = "c\<lparr>evaluating_rhs := False\<rparr>"
  have lay1: "layout_ok ?c1 ?h1"
    using assms(1) by (simp add: layout_ok_def reservoir_owners_fold)
  have len1: "length x = system_dimension ?c1" using assms(2) by simp
  have own: "\<And>p. reservoir_owned (pol ?h1 p) = None \<longleftrightarrow> reservoir_owned (pol h p) = None"
    by (simp add: fold_apply_wr_owner)
  have sw: "state_writes ?h1 x ?c1 = state_writes h x c"
    by (rule state_writes_cong[OF own]) simp_all
  have "operator_call u' x dxdt' t (?c1, ?h1)
      = Inr ((?c1\<lparr>evaluating_rhs := False\<rparr>, fold apply_wr (state_writes ?h1 x ?c1) ?h1),
            vector_field (fold apply_wr (state_writes ?h1 x ?c1) ?h1) t ?c1)"
    by (rule operator_call_eq[OF lay1 len1])
  then have "operator_call u' x dxdt' t (?c1, ?h1) = Inr ((?c1, ?h1), vector_field ?h1 t c)"
    by (simp add: sw fold_apply_wr_idem vector_field_def)
  with operator_call_eq[OF assms, of u dxdt t] show ?thesis by blast
qed

lemma PolaritonMode_check_frame:
  "PolaritonMode_check p = Inr p' \<Longrightarrow> p' = p\<lparr>n_neighbors := n_neighbors p'\<rparr>"
  by (auto simp: PolaritonMode_check_def Let_def split: if_splits)

lemma PhononMode_check_frame:
  "PhononMode_check ph = Inr ph' \<Longrightarrow> ph' = ph\<lparr>n_pairings := n_pairings ph'\<rparr>"
  by (auto simp: PhononMode_check_def Let_def split: if_splits)

lemma check_polaritons_frame:
  "check_polaritons ps h = Inr h' \<Longrightarrow>
     phn h' = phn h \<and> (\<forall>a. pol h' a = (pol h a)\<lparr>n_neighbors := n_neighbors (pol h' a)\<rparr>)"
proof (induction ps arbitrary: h)
  case Nil
  then show ?case by simp
next
  case (Cons p ps)
  from Cons.prems obtain p' where p': "PolaritonMode_check (pol h p) = Inr p'"
    and rest: "check_polaritons ps (h\<lparr>pol := (pol h)(p := p')\<rparr>) = Inr h'"
    by (auto simp: ebind_Inr_iff)
  note f = PolaritonMode_check_frame[OF p']
  from Cons.IH[OF rest] have phn: "phn h' = phn h"
    and pol: "\<And>a. pol h' a = (((pol h)(p := p')) a)\<lparr>n_neighbors := n_neighbors (pol h' a)\<rparr>"
    by simp_all
  have "pol h' a = (pol h a)\<lparr>n_neighbors := n_neighbors (pol h' a)\<rparr>" for a
  proof (cases "a = p")
    case True
    have "pol h' p = p'\<lparr>n_neighbors := n_neighbors (pol h' p)\<rparr>" using pol[of p] by simp
    also have "\<dots> = (pol h p)\<lparr>n_neighbors := n_neighbors (pol h' p)\<rparr>"
      by (subst f) simp
    finally show ?thesis using True by simp
  next
    case False
    then show ?thesis using pol[of a] by simp
  qed
  with phn show ?case by blast
qed

lemma check_phonons_frame:
  "check_phonons phs h = Inr h' \<Longrightarrow>
     pol h' = pol h \<and> (\<forall>a. phn h' a = (phn h a)\<lparr>n_pairings := n_pairings (phn h' a)\<rparr>)"
proof (induction phs arbitrary: h)
  case Nil
  then show ?case by simp
next
  case (Cons p ps)
  from Cons.prems obtain p' where p': "PhononMode_check (phn h p) = Inr p'"
    and rest: "check_phonons ps (h\<lparr>phn := (phn h)(p := p')\<rparr>) = Inr h'"
    by (auto simp: ebind_Inr_iff)
  note f = PhononMode_check_frame[OF p']
  from Cons.IH[OF rest] have phn: "pol h' = pol h"
    and pol: "\<And>a. phn h' a = (((phn h)(p := p')) a)\<lparr>n_pairings := n_pairings (phn h' a)\<rparr>"
    by simp_all
  have "phn h' a = (phn h a)\<lparr>n_pairings := n_pairings (phn h' a)\<rparr>" for a
  proof (cases "a = p")
    case True
    have "phn h' p = p'\<lparr>n_pairings := n_pairings (phn h' p)\<rparr>" using pol[of p] by simp
    also have "\<dots> = (phn h p)\<lparr>n_pairings := n_pairings (phn h' p)\<rparr>"
      by (subst f) simp
    finally show ?thesis using True by simp
  next
    case False
    then show ?thesis using pol[of a] by simp
  qed
  with phn show ?case by blast
qed

lemma Cavity_new_result:
  assumes "Cavity_new u mk pols phons t0 h = Inr (c, h')"
  shows "polaritons c = pols" and "phonons c = phons" and "current_time c = t0"
    and "used_time_step c = 1 / 10 ^ 3"
    and "layout_ok c h'" and "current_state c = flat_state h' c"
    and "\<And>a. reservoir_owned (pol h' a) = reservoir_owned (pol h a)"
proof -
  from assms obtain h1 c2 where
    c1: "check_polaritons pols h = Inr h1" and c2: "check_phonons phons h1 = Inr h'" and
    pk: "pack_state h' c2 = Inr c" and
    c2_def: "c2 = \<lparr>polaritons = pols, phonons = phons,
       current_state = set_size u (count_reservoirs h' pols (2 * length pols + 2 * length phons)) [],
       current_time = t0, dopri5_stepper = mk (1 / 10 ^ 6) (1 / 10 ^ 6),
       abs_stepper_tol = 1 / 10 ^ 6, rel_stepper_tol = 1 / 10 ^ 6,
       used_time_step = 1 / 10 ^ 3,
       system_dimension = count_reservoirs h' pols (2 * length pols + 2 * length phons),
       evaluating_rhs = False\<rparr>"
    unfolding Cavity_new_def by (auto simp: ebind_Inr_iff Let_def)
  have len: "length (current_state c2) = length (flat_state h' c2)"
    by (simp add: c2_def flat_state_def count_reservoirs_eq)
  have "pack_state h' c2 = Inr (c2\<lparr>current_state := flat_state h' c2 @ []\<rparr>)"
    by (rule pack_state_segment[OF _ len]) simp
  with pk have c: "c = c2\<lparr>current_state := flat_state h' c2\<rparr>" by simp
  show "polaritons c = pols" "phonons c = phons" "current_time c = t0"
    "used_time_step c = 1 / 10 ^ 3"
    by (simp_all add: c c2_def)
  show "layout_ok c h'" by (simp add: c c2_def layout_ok_def count_reservoirs_eq)
  show "current_state c = flat_state h' c" by (simp add: c flat_state_def)
  from check_polaritons_frame[OF c1] check_phonons_frame[OF c2]
  have "pol h' a = (pol h a)\<lparr>n_neighbors := n_neighbors (pol h' a)\<rparr>" for a by simp
  then have "reservoir_owned (pol h' a)
      = reservoir_owned ((pol h a)\<lparr>n_neighbors := n_neighbors (pol h' a)\<rparr>)" for a
    by (rule arg_cong)
  then show "reservoir_owned (pol h' a) = reservoir_owned (pol h a)" for a by simp
qed

lemma polariton_writes_reservoir:
  "reservoir_owned (pol (fold apply_wr (polariton_writes seg ps) h) p) = reservoir_owned (pol h p)"
  by (induction seg ps arbitrary: h rule: polariton_writes.induct) (simp_all add: set_value_def)

lemma phonon_writes_reservoir:
  "reservoir_owned (pol (fold apply_wr (phonon_writes seg phs) h) p) = reservoir_owned (pol h p)"
  by (induction seg phs arbitrary: h rule: phonon_writes.induct)
    (simp_all add: set_position_def set_velocity_def)

lemma reservoir_writes_frame:
  "p \<notin> set ps \<Longrightarrow> pol (fold apply_wr (reservoir_writes h seg ps) g) p = pol g p"
proof (induction ps arbitrary: seg g)
  case Nil
  show ?case by simp
next
  case (Cons q ps)
  then show ?case by (cases seg) (auto simp: set_value_reservoir_def)
qed

lemma reservoir_slots_Cons:
  "reservoir_slots k (p # ps) =
     (case reservoir_owned (pol k p) of None \<Rightarrow> reservoir_slots k ps
      | Some r \<Rightarrow> value_nr r # reservoir_slots k ps)"
  by (simp add: reservoir_slots_def reservoir_owners_def split: option.split)

lemma reservoir_writes_slots:
  assumes "distinct ps" and "length seg = length (reservoir_owners h ps)"
    and "\<And>p. reservoir_owned (pol g p) = None \<longleftrightarrow> reservoir_owned (pol h p) = None"
  shows "reservoir_slots (fold apply_wr (reservoir_writes h seg ps) g) ps = seg"
  using assms
proof (induction ps arbitrary: seg g)
  case Nil
  then show ?case by (simp add: reservoir_slots_def reservoir_owners_def)
next
  case (Cons p ps)
  from Cons.prems(1) have d: "distinct ps" and np: "p \<notin> set ps" by simp_all
  show ?case
  proof (cases "reservoir_owned (pol h p)")
    case None
    with Cons.prems(2) have len: "length seg = length (reservoir_owners h ps)"
      by (simp add: reservoir_owners_def)
    let ?k = "fold apply_wr (reservoir_writes h seg ps) g"
    have "pol ?k p = pol g p" by (rule reservoir_writes_frame[OF np])
    then have "reservoir_owned (pol ?k p) = None" using None Cons.prems(3) by simp
    with Cons.IH[OF d len Cons.prems(3)] None show ?thesis
      by (simp add: reservoir_slots_Cons)
  next
    case (Some r)
    with Cons.prems(2) obtain n seg' where seg: "seg = n # seg'"
      and len: "length seg' = length (reservoir_owners h ps)"
      by (cases seg) (auto simp: reservoir_owners_def)
    let ?g1 = "set_value_reservoir p n g"
    let ?k = "fold apply_wr (reservoir_writes h seg' ps) ?g1"
    have own1: "\<And>q. reservoir_owned (pol ?g1 q) = None \<longleftrightarrow> reservoir_owned (pol h q) = None"
      using apply_wr_owner[of "SetReservoir p n" g] Cons.prems(3) by simp
    from Some Cons.prems(3) obtain rg where rg: "reservoir_owned (pol g p) = Some rg"
      by (cases "reservoir_owned (pol g p)") auto
    have "pol ?k p = pol ?g1 p" by (rule reservoir_writes_frame[OF np])
    then have "reservoir_owned (pol ?k p) = Some (rg\<lparr>value_nr := n\<rparr>)"
      by (simp add: set_value_reservoir_def rg)
    with Cons.IH[OF d len own1] Some show ?thesis
      by (simp add: seg reservoir_slots_Cons)
  qed
qed

lemma unpack_state_reservoir_slots:
  assumes "length x = 2 * length (polaritons c) + 2 * length (phonons c)
      + length (reservoir_owners h (polaritons c))"
    and "distinct (polaritons c)"
  shows "reservoir_slots (fold apply_wr (state_writes h x c) h) (polaritons c)
     = drop (2 * length (polaritons c) + 2 * length (phonons c)) x"
proof -
  let ?g = "fold apply_wr (phonon_writes (take (2 * length (phonons c)) (drop (2 * length (polaritons c)) x)) (phonons c))
       (fold apply_wr (polariton_writes (take (2 * length (polaritons c)) x) (polaritons c)) h)"
  let ?seg = "drop (2 * length (polaritons c) + 2 * length (phonons c)) x"
  have own: "\<And>p. reservoir_owned (pol ?g p) = None \<longleftrightarrow> reservoir_owned (pol h p) = None"
    by (simp add: phonon_writes_reservoir polariton_writes_reservoir)
  have len: "length ?seg = length (reservoir_owners h (polaritons c))" using assms(1) by simp
  have "reservoir_slots (fold apply_wr (reservoir_writes h ?seg (polaritons c)) ?g) (polaritons c) = ?seg"
    by (rule reservoir_writes_slots[OF assms(2) len own])
  then show ?thesis by (simp add: state_writes_def)
qed

text \<open>
  C2. A cavity built from \<open>p\<close> oscillators and \<open>m\<close> mechanical modes, \<open>r\<close> of the oscillators
  owning a reservoir, has a state vector of dimension \<open>2p + 2m + r\<close>. After the packing of
  the constructor, components \<open>2p+2m .. 2p+2m+r-1\<close> are the reservoir values in creation
  order of the oscillators that own one; \<^verbatim>\<open>unpack_state\<close> of a vector of that dimension
  gives the same components to the same reservoirs (the oscillators being \<open>p\<close> different
  objects).
\<close>

theorem Cavity_new_layout:
  assumes "Cavity_new u mk pols phons t0 h = Inr (c, h')"
  shows "length (get_state c)
        = 2 * length pols + 2 * length phons + length (reservoir_owners h pols)
     \<and> system_dimension c = length (get_state c)
     \<and> reservoir_owners h' pols = reservoir_owners h pols
     \<and> drop (2 * length pols + 2 * length phons) (get_state c) = reservoir_slots h' pols
     \<and> (\<forall>x. length x = system_dimension c \<and> distinct pols \<longrightarrow>
          (\<exists>h''. unpack_state c x h' = Inr h''
             \<and> reservoir_owners h'' pols = reservoir_owners h pols
             \<and> reservoir_slots h'' pols = drop (2 * length pols + 2 * length phons) x))"
proof -
  note r = Cavity_new_result[OF assms]
  have own: "reservoir_owners h' pols = reservoir_owners h pols"
    by (simp add: reservoir_owners_def r(7))
  have dim: "system_dimension c
      = 2 * length pols + 2 * length phons + length (reservoir_owners h pols)"
    using r(5) by (simp add: layout_ok_def r(1,2) own)
  have st: "get_state c = polariton_slots h' pols @ phonon_slots h' phons @ reservoir_slots h' pols"
    by (simp add: get_state_def r(6) flat_state_def r(1,2))
  have len: "length (get_state c)
      = 2 * length pols + 2 * length phons + length (reservoir_owners h pols)"
    by (simp add: st own)
  have dr: "drop (2 * length pols + 2 * length phons) (get_state c) = reservoir_slots h' pols"
    by (simp add: st)
  have un: "\<exists>h''. unpack_state c x h' = Inr h''
             \<and> reservoir_owners h'' pols = reservoir_owners h pols
             \<and> reservoir_slots h'' pols = drop (2 * length pols + 2 * length phons) x"
    if x: "length x = system_dimension c" and d: "distinct pols" for x
  proof -
    have lx: "length x = 2 * length (polaritons c) + 2 * length (phonons c)
        + length (reservoir_owners h' (polaritons c))"
      using x dim by (simp add: r(1,2) own)
    have "unpack_state c x h' = Inr (fold apply_wr (state_writes h' x c) h')"
      by (rule unpack_state_writes[OF lx])
    moreover have "reservoir_owners (fold apply_wr (state_writes h' x c) h') pols
        = reservoir_owners h pols"
      by (simp add: reservoir_owners_fold own)
    moreover have "reservoir_slots (fold apply_wr (state_writes h' x c) h') pols
        = drop (2 * length pols + 2 * length phons) x"
      using unpack_state_reservoir_slots[OF lx] d by (simp add: r(1,2))
    ultimately show ?thesis by blast
  qed
  from len dim own dr un show ?thesis by auto
qed

lemma length_axpy [simp]: "length (axpy x a k) = min (length x) (length k)"
  by (simp add: axpy_def)

lemma length_vector_field:
  "layout_ok c h \<Longrightarrow> length (vector_field h t c) = system_dimension c"
  by (simp add: vector_field_def layout_ok_def)

lemma operator_call_step:
  assumes "layout_ok c h" and "length x = system_dimension c"
  shows "\<exists>h1 k. operator_call u x dxdt t (c, h) = Inr ((c\<lparr>evaluating_rhs := False\<rparr>, h1), k)
           \<and> layout_ok (c\<lparr>evaluating_rhs := False\<rparr>) h1 \<and> length k = system_dimension c"
proof -
  let ?h1 = "fold apply_wr (state_writes h x c) h"
  have lay1: "layout_ok (c\<lparr>evaluating_rhs := False\<rparr>) ?h1"
    using assms(1) by (simp add: layout_ok_def reservoir_owners_fold)
  have "length (vector_field ?h1 t c) = system_dimension c"
    using length_vector_field[OF lay1, of t] by (simp add: vector_field_def)
  with operator_call_eq[OF assms, of u dxdt t] lay1 show ?thesis by blast
qed

lemma runge_kutta4_result:
  assumes "layout_ok c h" and "length x = system_dimension c"
  shows "\<exists>h1 x'. runge_kutta4_do_step u (operator_call u) x t dt (c, h)
             = Inr ((c\<lparr>evaluating_rhs := False\<rparr>, h1), x')
           \<and> layout_ok (c\<lparr>evaluating_rhs := False\<rparr>) h1 \<and> length x' = system_dimension c"
proof -
  let ?c = "c\<lparr>evaluating_rhs := False\<rparr>"
  let ?buf = "set_size u (length x) []"
  obtain h1 k1 where s1: "operator_call u x ?buf t (c, h) = Inr ((?c, h1), k1)"
    and l1: "layout_ok ?c h1" and n1: "length k1 = system_dimension c"
    using operator_call_step[OF assms] by blast
  have x1: "length (axpy x (dt / 2) k1) = system_dimension ?c" using assms(2) n1 by simp
  obtain h2 k2 where s2: "operator_call u (axpy x (dt / 2) k1) ?buf (t + dt / 2) (?c, h1)
        = Inr ((?c, h2), k2)"
    and l2: "layout_ok ?c h2" and n2: "length k2 = system_dimension c"
    using operator_call_step[OF l1 x1, of u ?buf "t + dt / 2"] by auto
  have x2: "length (axpy x (dt / 2) k2) = system_dimension ?c" using assms(2) n2 by simp
  obtain h3 k3 where s3: "operator_call u (axpy x (dt / 2) k2) ?buf (t + dt / 2) (?c, h2)
        = Inr ((?c, h3), k3)"
    and l3: "layout_ok ?c h3" and n3: "length k3 = system_dimension c"
    using operator_call_step[OF l2 x2, of u ?buf "t + dt / 2"] by auto
  have x3: "length (axpy x dt k3) = system_dimension ?c" using assms(2) n3 by simp
  obtain h4 k4 where s4: "operator_call u (axpy x dt k3) ?buf (t + dt) (?c, h3)
        = Inr ((?c, h4), k4)"
    and l4: "layout_ok ?c h4" and n4: "length k4 = system_dimension c"
    using operator_call_step[OF l3 x3, of u ?buf "t + dt"] by auto
  have "runge_kutta4_do_step u (operator_call u) x t dt (c, h)
      = Inr ((?c, h4), axpy (axpy (axpy (axpy x (dt / 6) k1) (dt / 3) k2) (dt / 3) k3) (dt / 6) k4)"
    by (simp add: runge_kutta4_do_step_def Let_def s1 s2 s3 s4)
  moreover have "length (axpy (axpy (axpy (axpy x (dt / 6) k1) (dt / 3) k2) (dt / 3) k3) (dt / 6) k4)
      = system_dimension c"
    using assms(2) n1 n2 n3 n4 by simp
  ultimately show ?thesis using l4 by blast
qed

lemma do_step_result:
  assumes "layout_ok c h" and "length (current_state c) = system_dimension c"
  shows "\<exists>c' h'. do_step u dt (c, h) = Inr (c', h')
           \<and> current_time c' = current_time c \<and> used_time_step c' = dt
           \<and> layout_ok c' h' \<and> length (current_state c') = system_dimension c'"
proof -
  let ?c = "c\<lparr>evaluating_rhs := False\<rparr>"
  obtain h1 x' where rk: "runge_kutta4_do_step u (operator_call u) (current_state c)
        (current_time c) dt (c, h) = Inr ((?c, h1), x')"
    and l1: "layout_ok ?c h1" and n: "length x' = system_dimension c"
    using runge_kutta4_result[OF assms] by blast
  let ?c2 = "?c\<lparr>current_state := x'\<rparr>"
  have lx: "length x' = 2 * length (polaritons ?c2) + 2 * length (phonons ?c2)
      + length (reservoir_owners h1 (polaritons ?c2))"
    using l1 n by (simp add: layout_ok_def)
  let ?h' = "fold apply_wr (state_writes h1 x' ?c2) h1"
  have un: "unpack_state ?c2 x' h1 = Inr ?h'" by (rule unpack_state_writes[OF lx])
  have "do_step u dt (c, h) = Inr (?c2\<lparr>used_time_step := dt\<rparr>, ?h')"
    by (simp add: do_step_def rk Let_def un)
  moreover have "layout_ok (?c2\<lparr>used_time_step := dt\<rparr>) ?h'"
    using l1 by (simp add: layout_ok_def reservoir_owners_fold)
  ultimately show ?thesis using n by auto
qed

lemmas sample_defs = two_site_heap_def two_site_cavity_def fresh_heap_def set_value_def
  set_position_def set_velocity_def connect_def add_reservoir_def add_pairing_def
  PolaritonMode_new_def PhononMode_new_def NonResonantDriving_new_def

lemma two_site_layout: "layout_ok two_site_cavity two_site_heap"
  by (simp add: layout_ok_def reservoir_owners_def sample_defs)

lemma two_site_length: "length (current_state two_site_cavity) = system_dimension two_site_cavity"
  by (simp add: two_site_cavity_def)

lemma two_site_new: "\<exists>c h'. Cavity_new zero_memory unit_stepper [0, 1] [0] 0 two_site_heap = Inr (c, h')"
  by (simp add: Cavity_new_def PolaritonMode_check_def PhononMode_check_def Let_def sample_defs
      pack_state_def set_size_def set_elem_def upt_rec)

lemma two_site_flat: "flat_state two_site_heap two_site_cavity = [1, 2, 0, 0, 4, 5, 3]"
  by (simp add: flat_state_def polariton_slots_def phonon_slots_def reservoir_slots_def
      reservoir_owners_def sample_defs)


subsection \<open>Sample runs\<close>

theorem pack_unpack_roundtrip_witness:
  "length (flat_state two_site_heap two_site_cavity) \<le> length (current_state two_site_cavity)
   \<and> (\<exists>c'. pack_state two_site_heap two_site_cavity = Inr c'
         \<and> unpack_state c' (current_state c') two_site_heap = Inr two_site_heap)"
proof -
  have le: "length (flat_state two_site_heap two_site_cavity)
      \<le> length (current_state two_site_cavity)"
    by (simp add: two_site_flat) (simp add: two_site_cavity_def)
  with pack_unpack_roundtrip[of two_site_heap two_site_cavity] show ?thesis by blast
qed

theorem operator_call_twice_witness:
  "layout_ok two_site_cavity two_site_heap
   \<and> length [1, 2, 3, 4, 5, 6, 7 :: real] = system_dimension two_site_cavity
   \<and> (\<exists>c1 h1 d.
         operator_call zero_memory [1, 2, 3, 4, 5, 6, 7] [] (1 / 2) (two_site_cavity, two_site_heap)
           = Inr ((c1, h1), d)
         \<and> operator_call one_memory [1, 2, 3, 4, 5, 6, 7] [9] (1 / 2) (c1, h1) = Inr ((c1, h1), d))"
proof -
  have len: "length [1, 2, 3, 4, 5, 6, 7 :: real] = system_dimension two_site_cavity"
    by (simp add: two_site_cavity_def)
  from operator_call_twice[OF two_site_layout len] two_site_layout len show ?thesis by blast
qed

theorem Cavity_new_layout_witness:
  "\<exists>c h'. Cavity_new zero_memory unit_stepper [0, 1] [0] 0 two_site_heap = Inr (c, h')
     \<and> length (get_state c) = 7
     \<and> drop 6 (get_state c) = reservoir_slots h' [0, 1]
     \<and> (\<exists>h''. unpack_state c [1, 2, 3, 4, 5, 6, 7] h' = Inr h''
           \<and> reservoir_slots h'' [0, 1] = [7])"
proof -
  obtain c h' where new: "Cavity_new zero_memory unit_stepper [0, 1] [0] 0 two_site_heap = Inr (c, h')"
    using two_site_new by blast
  note L = Cavity_new_layout[OF new]
  have r: "reservoir_owners two_site_heap [0, 1] = [1]"
    by (simp add: reservoir_owners_def sample_defs)
  from L have "length (get_state c)
      = 2 * length [0, 1 :: nat] + 2 * length [0 :: nat] + length (reservoir_owners two_site_heap [0, 1])"
    by blast
  then have len: "length (get_state c) = 7" unfolding r by simp
  from L have "system_dimension c = length (get_state c)" by blast
  with len have dim: "system_dimension c = 7" by simp
  from L have "drop (2 * length [0, 1 :: nat] + 2 * length [0 :: nat]) (get_state c)
      = reservoir_slots h' [0, 1]" by blast
  then have dr: "drop 6 (get_state c) = reservoir_slots h' [0, 1]" by simp
  have "length [1, 2, 3, 4, 5, 6, 7 :: real] = system_dimension c \<and> distinct [0, 1 :: nat]"
    by (simp add: dim)
  with L obtain h'' where "unpack_state c [1, 2, 3, 4, 5, 6, 7] h' = Inr h''"
    and "reservoir_slots h'' [0, 1]
      = drop (2 * length [0, 1 :: nat] + 2 * length [0 :: nat]) [1, 2, 3, 4, 5, 6, 7]"
    by blast
  then have "\<exists>h''. unpack_state c [1, 2, 3, 4, 5, 6, 7] h' = Inr h''
           \<and> reservoir_slots h'' [0, 1] = [7]" by simp
  with new len dr show ?thesis by blast
qed

subsection \<open>The steppers\<close>

text \<open>
  C1 (what the code does). In a cavity whose recorded dimension counts its entities,
  \<^verbatim>\<open>do_step(dt)\<close> returns and leaves the stored time as it was: \<^verbatim>\<open>get_time()\<close> gives the
  same value before and after, for every \<open>dt\<close>. The stepper takes the time by value and
  \<^verbatim>\<open>do_step\<close> never assigns \<^verbatim>\<open>current_time\<close>.
\<close>

theorem do_step_keeps_time:
  assumes "layout_ok c h" and "length (current_state c) = system_dimension c"
  shows "\<exists>c' h'. do_step u dt (c, h) = Inr (c', h') \<and> get_time c' = get_time c"
  using do_step_result[OF assms, of u dt] by (auto simp: get_time_def)

theorem do_step_keeps_time_witness:
  "layout_ok two_site_cavity two_site_heap
   \<and> length (current_state two_site_cavity) = system_dimension two_site_cavity
   \<and> (\<exists>c' h'. do_step zero_memory (1 / 200) (two_site_cavity, two_site_heap) = Inr (c', h')
         \<and> get_time c' = 0)"
proof -
  have "get_time two_site_cavity = 0" by (simp add: get_time_def two_site_cavity_def)
  with do_step_keeps_time[OF two_site_layout two_site_length, of zero_memory "1 / 200"]
    two_site_layout two_site_length
  show ?thesis by auto
qed

lemma adaptive_step_result:
  assumes "try_step (operator_call u) (dopri5_stepper c) (current_state c) (current_time c)
       (used_time_step c) (c, h) = Inr ((c1, h1), s, x, t', dt')"
    and "layout_ok c1 h1" and "length x = system_dimension c1"
  shows "\<exists>c' h'. adaptive_step try_step u (c, h) = Inr (c', h')"
proof -
  let ?c2 = "c1\<lparr>dopri5_stepper := s, current_state := x, current_time := t',
               used_time_step := dt'\<rparr>"
  have lx: "length x = 2 * length (polaritons ?c2) + 2 * length (phonons ?c2)
      + length (reservoir_owners h1 (polaritons ?c2))"
    using assms(2,3) by (simp add: layout_ok_def)
  show ?thesis
    by (simp add: adaptive_step_def assms(1) Let_def unpack_state_writes[OF lx])
qed

text \<open>
  C8 (as amended). \<^verbatim>\<open>do_step(dt)\<close> sets the remembered step size to \<open>dt\<close>;
  \<^verbatim>\<open>adaptive_step()\<close> sets it to the step size the controlled stepper hands back.
\<close>

theorem step_size_memory:
  "(layout_ok c h \<and> length (current_state c) = system_dimension c \<longrightarrow>
      (\<exists>c' h'. do_step u dt (c, h) = Inr (c', h') \<and> get_time_step c' = dt))
   \<and> (\<forall>c1 h1 s x t' dt' c' h'.
        try_step (operator_call u) (dopri5_stepper c) (current_state c) (current_time c)
            (used_time_step c) (c, h) = Inr ((c1, h1), s, x, t', dt')
        \<and> adaptive_step try_step u (c, h) = Inr (c', h')
        \<longrightarrow> get_time_step c' = dt')"
proof (intro conjI impI allI)
  assume "layout_ok c h \<and> length (current_state c) = system_dimension c"
  then show "\<exists>c' h'. do_step u dt (c, h) = Inr (c', h') \<and> get_time_step c' = dt"
    using do_step_result[of c h u dt] by (auto simp: get_time_step_def)
next
  fix c1 h1 s x t' dt' c' h'
  assume a: "try_step (operator_call u) (dopri5_stepper c) (current_state c) (current_time c)
            (used_time_step c) (c, h) = Inr ((c1, h1), s, x, t', dt')
        \<and> adaptive_step try_step u (c, h) = Inr (c', h')"
  then show "get_time_step c' = dt'"
    by (auto simp: adaptive_step_def Let_def ebind_Inr_iff get_time_step_def)
qed

theorem step_size_memory_witness:
  "(\<exists>c' h'. do_step zero_memory (1 / 2) (two_site_cavity, two_site_heap) = Inr (c', h')
       \<and> get_time_step c' = 1 / 2)
   \<and> (\<exists>c' h'. adaptive_step halving_try_step zero_memory (two_site_cavity, two_site_heap)
         = Inr (c', h')
       \<and> get_time_step c' = 1 / 2000)"
proof -
  note T = step_size_memory[of two_site_cavity two_site_heap zero_memory "1 / 2" halving_try_step]
  have ts: "halving_try_step (operator_call zero_memory) (dopri5_stepper two_site_cavity)
      (current_state two_site_cavity) (current_time two_site_cavity)
      (used_time_step two_site_cavity) (two_site_cavity, two_site_heap)
    = Inr ((two_site_cavity, two_site_heap), (), current_state two_site_cavity, 1 / 1000, 1 / 2000)"
    by (simp add: halving_try_step_def two_site_cavity_def)
  obtain c' h' where ad: "adaptive_step halving_try_step zero_memory (two_site_cavity, two_site_heap)
      = Inr (c', h')"
    using adaptive_step_result[where try_step = halving_try_step and u = zero_memory
        and c = two_site_cavity and h = two_site_heap, OF ts two_site_layout two_site_length]
    by blast
  from T ts ad have "get_time_step c' = 1 / 2000" by blast
  with ad T two_site_layout two_site_length show ?thesis by blast
qed

text \<open>
  \<^verbatim>\<open>do_step\<close> does change the remembered step size: from \<open>0.001\<close> to \<open>0.5\<close> here.
\<close>

theorem step_size_memory_counterexample:
  "map_sum id (get_time_step \<circ> fst) (do_step zero_memory (1 / 2) (two_site_cavity, two_site_heap))
     = Inr (1 / 2)
   \<and> get_time_step two_site_cavity = 1 / 1000"
proof -
  obtain c' h' where "do_step zero_memory (1 / 2) (two_site_cavity, two_site_heap) = Inr (c', h')"
    and "used_time_step c' = 1 / 2"
    using do_step_result[OF two_site_layout two_site_length, of zero_memory "1 / 2"] by blast
  moreover have "get_time_step two_site_cavity = 1 / 1000"
    by (simp add: get_time_step_def two_site_cavity_def)
  ultimately show ?thesis by (simp add: get_time_step_def)
qed

subsection \<open>The configuration loader\<close>

lemma parse_call_sections:
  "parse_call L draw trimmed P = Some (Inr (v, P')) \<Longrightarrow> sections P' = sections P"
  by (auto simp: parse_call_def split: option.splits prod.splits)

lemma parse_expression_sections:
  "parse_expression L expr P = Inr (v, P') \<Longrightarrow> sections P' = sections P"
  by (auto simp: parse_expression_def Let_def split: option.splits if_splits
      dest: parse_call_sections)

lemma get_double_sections:
  "get_double L section key d P = Inr (v, P') \<Longrightarrow> sections P' = sections P"
  by (auto simp: get_double_def Let_def split: if_splits dest: parse_expression_sections)

lemma get_string_cong: "sections P' = sections P \<Longrightarrow> get_string P' = get_string P"
  by (simp add: get_string_def fun_eq_iff)

lemma get_sections_by_type_cong:
  "sections P' = sections P \<Longrightarrow> get_sections_by_type P' = get_sections_by_type P"
  by (simp add: get_sections_by_type_def fun_eq_iff)

lemma seed_parser_sections: "seed_parser L P = Inr P' \<Longrightarrow> sections P' = sections P"
  by (auto simp: seed_parser_def Let_def split: if_splits option.splits)

lemma create_polariton_frame:
  assumes "create_polariton L section st = Inr st'"
  shows "sections (parser st') = sections (parser st)"
    and "dom (polariton_map (config st')) = insert (extract_name section) (dom (polariton_map (config st)))"
  using assms
  by (auto simp: create_polariton_def Let_def ebind_Inr_iff dest!: get_double_sections)

lemma create_phonon_frame:
  assumes "create_phonon L section st = Inr st'"
  shows "sections (parser st') = sections (parser st)"
    and "polariton_map (config st') = polariton_map (config st)"
  using assms
  by (auto simp: create_phonon_def Let_def ebind_Inr_iff dest!: get_double_sections)

lemma create_reservoir_frame:
  assumes "create_reservoir L section st = Inr st'"
  shows "sections (parser st') = sections (parser st)"
    and "config st' = config st"
  using assms
  by (auto simp: create_reservoir_def Let_def ebind_Inr_iff split: option.splits
      dest!: get_double_sections)

lemma create_coupling_frame:
  assumes "create_coupling L section st = Inr st'"
  shows "sections (parser st') = sections (parser st)"
    and "config st' = config st"
    and "get_string (parser st) section ''to'' [] \<in> dom (polariton_map (config st))"
  using assms
  by (auto simp: create_coupling_def Let_def ebind_Inr_iff split: option.splits
      dest!: get_double_sections)


lemma for_each_append:
  "for_each body (xs @ ys) st = ebind (for_each body xs st) (for_each body ys)"
  by (induction xs arbitrary: st) (simp_all, metis ebind.simps old.sum.exhaust)

lemma for_each_polaritons:
  "for_each (create_polariton L) secs st = Inr st' \<Longrightarrow>
     sections (parser st') = sections (parser st)
     \<and> dom (polariton_map (config st')) = dom (polariton_map (config st)) \<union> extract_name ` set secs"
proof (induction secs arbitrary: st)
  case Nil
  then show ?case by simp
next
  case (Cons s secs)
  from Cons.prems obtain st1 where a: "create_polariton L s st = Inr st1"
    and b: "for_each (create_polariton L) secs st1 = Inr st'"
    by (auto simp: ebind_Inr_iff)
  from Cons.IH[OF b] create_polariton_frame[OF a] show ?case by auto
qed

lemma for_each_phonons:
  "for_each (create_phonon L) secs st = Inr st' \<Longrightarrow>
     sections (parser st') = sections (parser st)
     \<and> polariton_map (config st') = polariton_map (config st)"
proof (induction secs arbitrary: st)
  case Nil
  then show ?case by simp
next
  case (Cons s secs)
  from Cons.prems obtain st1 where a: "create_phonon L s st = Inr st1"
    and b: "for_each (create_phonon L) secs st1 = Inr st'"
    by (auto simp: ebind_Inr_iff)
  from Cons.IH[OF b] create_phonon_frame[OF a] show ?case by auto
qed

lemma for_each_reservoirs:
  "for_each (create_reservoir L) secs st = Inr st' \<Longrightarrow>
     sections (parser st') = sections (parser st) \<and> config st' = config st"
proof (induction secs arbitrary: st)
  case Nil
  then show ?case by simp
next
  case (Cons s secs)
  from Cons.prems obtain st1 where a: "create_reservoir L s st = Inr st1"
    and b: "for_each (create_reservoir L) secs st1 = Inr st'"
    by (auto simp: ebind_Inr_iff)
  from Cons.IH[OF b] create_reservoir_frame[OF a] show ?case by auto
qed

lemma for_each_couplings:
  "for_each (create_coupling L) secs st = Inr st' \<Longrightarrow>
     sections (parser st') = sections (parser st) \<and> config st' = config st
     \<and> (\<forall>s \<in> set secs. get_string (parser st) s ''to'' [] \<in> dom (polariton_map (config st)))"
proof (induction secs arbitrary: st)
  case Nil
  then show ?case by simp
next
  case (Cons s secs)
  from Cons.prems obtain st1 where a: "create_coupling L s st = Inr st1"
    and b: "for_each (create_coupling L) secs st1 = Inr st'"
    by (auto simp: ebind_Inr_iff)
  note f = create_coupling_frame[OF a]
  from Cons.IH[OF b] f show ?case by (auto simp: get_string_cong[OF f(1)])
qed

lemma create_entities_frame:
  assumes "create_entities L st = Inr st'"
  shows "sections (parser st') = sections (parser st)"
    and "dom (polariton_map (config st')) = created_oscillators st"
proof -
  from assms obtain P st1 st2 where
    s0: "seed_parser L (parser st) = Inr P" and
    s1: "for_each (create_polariton L) (get_sections_by_type P ''polariton'') (st\<lparr>parser := P\<rparr>)
          = Inr st1" and
    s2: "for_each (create_phonon L) (get_sections_by_type (parser st1) ''phonon'') st1 = Inr st2" and
    s3: "for_each (create_reservoir L) (get_sections_by_type (parser st2) ''reservoir'') st2 = Inr st'"
    by (auto simp: create_entities_def ebind_Inr_iff)
  note p0 = seed_parser_sections[OF s0]
  note f1 = for_each_polaritons[OF s1] and f2 = for_each_phonons[OF s2]
    and f3 = for_each_reservoirs[OF s3]
  show "sections (parser st') = sections (parser st)" using p0 f1 f2 f3 by simp
  show "dom (polariton_map (config st')) = created_oscillators st"
    using f1 f2 f3 by (simp add: created_oscillators_def get_sections_by_type_cong[OF p0])
qed

lemma unresolved_to_links_fail:
  assumes "s \<in> set (get_sections_by_type (parser st) ''coupling'')"
    and "get_string (parser st) s ''to'' [] \<notin> created_oscillators st"
  shows "\<exists>e. ebind (create_entities L st) (create_links L) = Inl e"
proof (cases "create_entities L st")
  case (Inl e)
  then show ?thesis by simp
next
  case (Inr st3)
  note f = create_entities_frame[OF Inr]
  have "\<exists>e. for_each (create_coupling L) (get_sections_by_type (parser st3) ''coupling'') st3 = Inl e"
  proof (cases "for_each (create_coupling L) (get_sections_by_type (parser st3) ''coupling'') st3")
    case (Inl e)
    then show ?thesis by blast
  next
    case (Inr st4)
    from for_each_couplings[OF Inr] assms(1)
    have "get_string (parser st3) s ''to'' [] \<in> dom (polariton_map (config st3))"
      by (simp add: get_sections_by_type_cong[OF f(1)])
    with assms(2) show ?thesis by (simp add: f(2) get_string_cong[OF f(1)])
  qed
  then show ?thesis using Inr by (auto simp: create_links_def)
qed

lemma unresolved_to_message:
  assumes "create_entities L st = Inr st3"
    and "get_sections_by_type (parser st) ''coupling'' = pre @ s # post"
    and "for_each (create_coupling L) pre st3 = Inr st4"
    and "get_string (parser st) s ''from'' [] \<in> created_oscillators st"
    and "get_string (parser st) s ''to'' [] \<notin> created_oscillators st"
  shows "ebind (create_entities L st) (create_links L)
     = Inl (RuntimeError (''Coupling 'to' not found: '' @ get_string (parser st) s ''to'' []))"
proof -
  note f = create_entities_frame[OF assms(1)]
  note g = for_each_couplings[OF assms(3)]
  have sec4: "sections (parser st4) = sections (parser st)" using f g by simp
  have dom4: "dom (polariton_map (config st4)) = created_oscillators st" using f g by simp
  from assms(4) obtain from_id where fr:
    "polariton_map (config st4) (get_string (parser st) s ''from'' []) = Some from_id"
    by (auto simp: dom4[symmetric])
  from assms(5) have to: "polariton_map (config st4) (get_string (parser st) s ''to'' []) = None"
    by (auto simp: dom4[symmetric])
  have "create_coupling L s st4
      = Inl (RuntimeError (''Coupling 'to' not found: '' @ get_string (parser st) s ''to'' []))"
    by (simp add: create_coupling_def Let_def fr to get_string_cong[OF sec4])
  then have "for_each (create_coupling L) (pre @ s # post) st3
      = Inl (RuntimeError (''Coupling 'to' not found: '' @ get_string (parser st) s ''to'' []))"
    by (simp add: for_each_append assms(3))
  then show ?thesis
    by (simp add: assms(1) create_links_def get_sections_by_type_cong[OF f(1)] assms(2))
qed

text \<open>
  C9 (as amended). When a coupling section has a \<open>to\<close> name that matches no created
  oscillator, \<^verbatim>\<open>load_from_ini\<close> throws: the creation of the entities and links already
  ends with that exception, so the part that computes the dimension, sizes the state
  vector and packs is never reached. The exception is the first one loading meets: it is
  \<^verbatim>\<open>Coupling 'to' not found: \<close> followed by the missing name when the entities are
  created, the coupling sections visited before succeed and the \<open>from\<close> name of the
  section is resolved.
\<close>

theorem unresolved_to_fails:
  assumes "s \<in> set (get_sections_by_type (parser st) ''coupling'')"
    and "get_string (parser st) s ''to'' [] \<notin> created_oscillators st"
  shows "(\<exists>e. ebind (create_entities L st) (create_links L) = Inl e
            \<and> load_from_ini L u mk st = Inl e)
     \<and> (\<forall>pre post st3 st4.
           create_entities L st = Inr st3
           \<and> get_sections_by_type (parser st) ''coupling'' = pre @ s # post
           \<and> for_each (create_coupling L) pre st3 = Inr st4
           \<and> get_string (parser st) s ''from'' [] \<in> created_oscillators st
           \<longrightarrow> load_from_ini L u mk st
              = Inl (RuntimeError (''Coupling 'to' not found: ''
                       @ get_string (parser st) s ''to'' [])))"
proof -
  have load: "load_from_ini L u mk st
      = ebind (ebind (create_entities L st) (create_links L)) (initialize_cavity L u mk)"
    by (cases "create_entities L st") (simp_all add: load_from_ini_def)
  from unresolved_to_links_fail[OF assms, of L]
  obtain e where e: "ebind (create_entities L st) (create_links L) = Inl e" by blast
  then have "load_from_ini L u mk st = Inl e" by (simp add: load)
  moreover have "load_from_ini L u mk st
              = Inl (RuntimeError (''Coupling 'to' not found: ''
                       @ get_string (parser st) s ''to'' []))"
    if "create_entities L st = Inr st3"
      and "get_sections_by_type (parser st) ''coupling'' = pre @ s # post"
      and "for_each (create_coupling L) pre st3 = Inr st4"
      and "get_string (parser st) s ''from'' [] \<in> created_oscillators st"
    for pre post st3 st4
    using unresolved_to_message[OF that(1,2,3,4) assms(2)] by (simp add: load)
  ultimately show ?thesis using e by blast
qed


lemmas loader_defs = fresh_loading_def sample_stdlib_def Cavity_default_def fresh_heap_def
  get_sections_by_type_def get_string_def get_double_def get_bool_def substr_def
  extract_name_def trim_def whitespace_def has_section_def seed_parser_def
  parse_expression_def parse_call_def created_oscillators_def

text \<open>
  With no oscillator at all the \<open>from\<close> name fails first, and the message does not hold
  the \<open>to\<close> name \<open>zz\<close>.
\<close>

theorem unresolved_to_fails_counterexample:
  "''coupling ab'' \<in> set (get_sections_by_type (parser dangling_from_loading) ''coupling'')
   \<and> get_string (parser dangling_from_loading) ''coupling ab'' ''to'' [] = ''zz''
   \<and> ''zz'' \<notin> created_oscillators dangling_from_loading
   \<and> load_from_ini sample_stdlib zero_memory unit_stepper dangling_from_loading
       = Inl (RuntimeError ''Coupling 'from' not found: a'')
   \<and> CHR ''z'' \<notin> set ''Coupling 'from' not found: a''"
  by (simp add: dangling_from_loading_def loader_defs load_from_ini_def create_entities_def
      create_links_def create_coupling_def)

lemma dangling_to_entities:
  "\<exists>st3. create_entities sample_stdlib dangling_to_loading = Inr st3"
  by (simp add: dangling_to_loading_def loader_defs create_entities_def create_polariton_def
      PolaritonMode_new_def set_value_def)

theorem unresolved_to_fails_witness:
  "''coupling ab'' \<in> set (get_sections_by_type (parser dangling_to_loading) ''coupling'')
   \<and> ''zz'' \<notin> created_oscillators dangling_to_loading
   \<and> load_from_ini sample_stdlib zero_memory unit_stepper dangling_to_loading
       = Inl (RuntimeError ''Coupling 'to' not found: zz'')"
proof -
  have s: "''coupling ab'' \<in> set (get_sections_by_type (parser dangling_to_loading) ''coupling'')"
    by (simp add: dangling_to_loading_def loader_defs)
  have secs: "get_sections_by_type (parser dangling_to_loading) ''coupling''
      = [] @ ''coupling ab'' # []"
    by (simp add: dangling_to_loading_def loader_defs)
  have to: "get_string (parser dangling_to_loading) ''coupling ab'' ''to'' [] = ''zz''"
    by (simp add: dangling_to_loading_def loader_defs)
  have "created_oscillators dangling_to_loading = {''a''}"
    by (simp add: dangling_to_loading_def loader_defs)
  then have nto: "get_string (parser dangling_to_loading) ''coupling ab'' ''to'' []
      \<notin> created_oscillators dangling_to_loading"
    and fr: "get_string (parser dangling_to_loading) ''coupling ab'' ''from'' []
      \<in> created_oscillators dangling_to_loading"
    by (simp_all add: to) (simp add: dangling_to_loading_def loader_defs)
  obtain st3 where e: "create_entities sample_stdlib dangling_to_loading = Inr st3"
    using dangling_to_entities by blast
  have pre: "for_each (create_coupling sample_stdlib) [] st3 = Inr st3" by simp
  note T = unresolved_to_fails[OF s nto, of sample_stdlib zero_memory unit_stepper]
  from T e secs pre fr
  have "load_from_ini sample_stdlib zero_memory unit_stepper dangling_to_loading
      = Inl (RuntimeError (''Coupling 'to' not found: ''
           @ get_string (parser dangling_to_loading) ''coupling ab'' ''to'' []))"
    by blast
  then show ?thesis using s nto by (simp add: to)
qed


lemma reservoir_loading_phase1:
  "for_each (create_polariton sample_stdlib)
      (get_sections_by_type (parser (fresh_loading (reservoir_sections alpha_text))) ''polariton'')
      (fresh_loading (reservoir_sections alpha_text))
     = Inr (reservoir_loading alpha_text)"
  by (simp add: reservoir_loading_def reservoir_sections_def loader_defs create_polariton_def
      Let_def)





end
